theory Spec2Isabelle
  imports Main "HOL-Library.Char_ord" "HOL-Library.List_Lexorder" "HOL-Library.Multiset"
begin

section \<open>The air-quality pipeline\<close>

text \<open>
  A model of the three command-line programs of the pipeline: \<^verbatim>\<open>database_manager.py\<close>
  (schema setup and teardown), \<^verbatim>\<open>extraction.py\<close> (loading the monthly partitions of
  every location) and \<^verbatim>\<open>transformation.py\<close> (running the transformation queries).
  Each Python function is a HOL function of the same name. The libraries the programs
  call (\<^verbatim>\<open>datetime\<close>, \<^verbatim>\<open>dateutil\<close>, \<^verbatim>\<open>jinja2\<close>, \<^verbatim>\<open>os\<close>) are modelled as far as
  the programs use them; the file system, the JSON parser and the database are
  parameters.
\<close>

section \<open>Exceptions\<close>

text \<open>
  The pipeline raises and catches Python exceptions. Every exception that can leave one of
  the modelled functions is a value of \<open>exn\<close>; a function that may raise returns
  \<open>exn + 'a\<close>, with \<open>Inl\<close> for the exception. \<open>IOException\<close> is the class
  \<^verbatim>\<open>duckdb.IOException\<close> (and its subclasses) that \<^verbatim>\<open>extract_data\<close> catches, with
  the message the driver gave it; \<open>DriverError\<close> is every other exception the driver
  raises when it executes a query. \<open>OSError\<close> stands for the whole class
  (\<^verbatim>\<open>FileNotFoundError\<close>, \<^verbatim>\<open>IsADirectoryError\<close>, \<^verbatim>\<open>PermissionError\<close>).
  \<open>TemplateError\<close> is any exception of the template engine.
\<close>

datatype exn =
    ValueError
  | TemplateError
  | OSError
  | AttributeError
  | IOException string
  | DriverError string

type_synonym 'a result = "exn + 'a"

fun is_IOException :: "exn \<Rightarrow> bool" where
  "is_IOException (IOException msg) = True"
| "is_IOException _ = False"

section \<open>Python strings and integers\<close>

text \<open>
  A Python \<^verbatim>\<open>str\<close> is a \<open>string\<close>. \<open>str_nat\<close> is \<^verbatim>\<open>str(n)\<close> for a non-negative
  integer: its decimal digits with no padding. \<open>zfill\<close> is \<^verbatim>\<open>str.zfill\<close>, which pads
  with zeros on the left, after a leading sign if there is one.
\<close>

definition digit_char :: "nat \<Rightarrow> char" where
  "digit_char d = ''0123456789'' ! d"

fun str_nat :: "nat \<Rightarrow> string" where
  "str_nat n = (if n < 10 then [digit_char n] else str_nat (n div 10) @ [digit_char (n mod 10)])"

declare str_nat.simps [simp del]

definition zfill :: "nat \<Rightarrow> string \<Rightarrow> string" where
  "zfill width s =
     (case s of
        c # cs \<Rightarrow>
          if c = CHR ''+'' \<or> c = CHR ''-''
          then c # replicate (width - length s) CHR ''0'' @ cs
          else replicate (width - length s) CHR ''0'' @ s
      | [] \<Rightarrow> replicate width CHR ''0'')"

definition is_digit :: "char \<Rightarrow> bool" where
  "is_digit c = (CHR ''0'' \<le> c \<and> c \<le> CHR ''9'')"

definition digit_val :: "char \<Rightarrow> nat" where
  "digit_val c = of_char c - 48"

definition endswith :: "string \<Rightarrow> string \<Rightarrow> bool" where
  "endswith s suffix = (length suffix \<le> length s \<and> drop (length s - length suffix) s = suffix)"

section \<open>datetime and relativedelta\<close>

text \<open>
  \<^verbatim>\<open>datetime.strptime(s, "%Y-%m")\<close> returns the first day of a month at midnight, so
  only the year and the month of a \<^verbatim>\<open>datetime\<close> vary here, and the record keeps these
  two. Python compares two such values by year, then month. A \<^verbatim>\<open>datetime\<close> holds
  years \<open>MINYEAR\<close> to \<open>MAXYEAR\<close> only.
\<close>

record datetime =
  year :: nat
  month :: nat

definition MINYEAR :: nat where "MINYEAR = 1"
definition MAXYEAR :: nat where "MAXYEAR = 9999"

definition datetime_le :: "datetime \<Rightarrow> datetime \<Rightarrow> bool" where
  "datetime_le a b = (year a < year b \<or> (year a = year b \<and> month a \<le> month b))"

text \<open>
  The directive \<^verbatim>\<open>%m\<close> is the regular expression \<^verbatim>\<open>1[0-2]|0[1-9]|[1-9]\<close>, and
  \<^verbatim>\<open>%Y\<close> is four digits. The whole string must be consumed; anything else raises
  \<^verbatim>\<open>ValueError\<close>, and so does the year 0000, which no \<^verbatim>\<open>datetime\<close> holds.
  Digits are the ASCII digits.
\<close>

definition month_field :: "string \<Rightarrow> nat option" where
  "month_field s =
     (case s of
        [a, b] \<Rightarrow>
          if a = CHR ''1'' \<and> CHR ''0'' \<le> b \<and> b \<le> CHR ''2'' then Some (10 + digit_val b)
          else if a = CHR ''0'' \<and> CHR ''1'' \<le> b \<and> b \<le> CHR ''9'' then Some (digit_val b)
          else None
      | [a] \<Rightarrow> if CHR ''1'' \<le> a \<and> a \<le> CHR ''9'' then Some (digit_val a) else None
      | _ \<Rightarrow> None)"

definition strptime_ym :: "string \<Rightarrow> datetime result" where
  "strptime_ym s =
     (case s of
        a # b # c # d # sep # rest \<Rightarrow>
          if is_digit a \<and> is_digit b \<and> is_digit c \<and> is_digit d \<and> sep = CHR ''-''
          then (case month_field rest of
                  None \<Rightarrow> Inl ValueError
                | Some m \<Rightarrow>
                    let y = 1000 * digit_val a + 100 * digit_val b + 10 * digit_val c + digit_val d
                    in if y < MINYEAR then Inl ValueError
                       else Inr \<lparr>year = y, month = m\<rparr>)
          else Inl ValueError
      | _ \<Rightarrow> Inl ValueError)"

text \<open>
  \<^verbatim>\<open>index_date += relativedelta(months=1)\<close>: the month is incremented, a month past 12
  carries into the year, and the result is built with \<^verbatim>\<open>datetime.replace\<close>, which
  raises \<^verbatim>\<open>ValueError\<close> for a year past \<open>MAXYEAR\<close>.
\<close>

definition add_one_month :: "datetime \<Rightarrow> datetime result" where
  "add_one_month dt =
     (let m = month dt + 1;
          y = (if m > 12 then year dt + 1 else year dt);
          m' = (if m > 12 then m - 12 else m)
      in if y > MAXYEAR then Inl ValueError else Inr \<lparr>year = y, month = m'\<rparr>)"

section \<open>Jinja2 templates\<close>

text \<open>
  \<^verbatim>\<open>Template(source).render(**bindings)\<close> of the Jinja2 library returns the rendered
  string or raises; it is an \<open>engine\<close>. The library is not part of the pipeline and its
  template language is large. What it does is written out here for the part of the
  language in which the pipeline's own templates are written, literal text and print
  statements \<^verbatim>\<open>{{ name }}\<close> of one variable:

  \<^item> the lexer turns every line ending into a line feed and drops a single trailing one;
  \<^item> a print statement runs from \<^verbatim>\<open>{{\<close> to the next \<^verbatim>\<open>}}\<close>, and white space around the
    name is ignored;
  \<^item> a name that the bindings do not hold renders as the empty string, and a binding the
    template does not mention is ignored;
  \<^item> values are inserted as they are (no escaping).

  \<open>fragment\<close> recognises a source of this part and splits it into pieces, and \<open>render\<close>
  substitutes the bindings. Every other source is left to a parameter: block tags
  \<^verbatim>\<open>{% %}\<close>, comments \<^verbatim>\<open>{# #}\<close>, expressions, filters, white-space control, a print
  statement that is never closed, and the names the library does not look up in the
  bindings alone (its constants, operators, built-in globals and \<^verbatim>\<open>self\<close>). What the
  library returns or raises for such a source is \<open>other source bindings\<close>, about which
  nothing is assumed, and \<open>jinja2 other\<close> is the library.
\<close>

type_synonym bindings = "(string \<times> string) list"

type_synonym engine = "string \<Rightarrow> bindings \<Rightarrow> string result"

datatype piece = TemplateData string | Name string

definition LF :: char where "LF = CHR 0x0A"
definition CR :: char where "CR = CHR 0x0D"

fun normalize_newlines :: "string \<Rightarrow> string" where
  "normalize_newlines [] = []"
| "normalize_newlines (c # cs) =
     (if c = CR then
        (case cs of
           d # ds \<Rightarrow> if d = LF then LF # normalize_newlines ds else LF # normalize_newlines cs
         | [] \<Rightarrow> [LF])
      else c # normalize_newlines cs)"

definition strip_trailing_newline :: "string \<Rightarrow> string" where
  "strip_trailing_newline s = (if s \<noteq> [] \<and> last s = LF then butlast s else s)"

definition is_space :: "char \<Rightarrow> bool" where
  "is_space c = (c = CHR '' '' \<or> (CHR 0x09 \<le> c \<and> c \<le> CHR 0x0D))"

definition strip :: "string \<Rightarrow> string" where
  "strip s = rev (dropWhile is_space (rev (dropWhile is_space s)))"

definition is_name_start :: "char \<Rightarrow> bool" where
  "is_name_start c =
     ((CHR ''a'' \<le> c \<and> c \<le> CHR ''z'') \<or> (CHR ''A'' \<le> c \<and> c \<le> CHR ''Z'') \<or> c = CHR ''_'')"

definition is_name_char :: "char \<Rightarrow> bool" where
  "is_name_char c = (is_name_start c \<or> is_digit c)"

definition reserved_names :: "string list" where
  "reserved_names =
     [''true'', ''false'', ''none'', ''True'', ''False'', ''None'',
      ''and'', ''or'', ''not'', ''in'', ''is'', ''if'', ''else'',
      ''range'', ''dict'', ''lipsum'', ''cycler'', ''joiner'', ''namespace'',
      ''self'', ''super'', ''loop'', ''caller'', ''varargs'', ''kwargs'']"

definition name_of :: "string \<Rightarrow> string option" where
  "name_of inner =
     (let t = strip inner
      in case t of
           [] \<Rightarrow> None
         | c # cs \<Rightarrow>
             if is_name_start c \<and> list_all is_name_char cs \<and> t \<notin> set reserved_names
             then Some t else None)"

fun split_at_close :: "string \<Rightarrow> (string \<times> string) option" where
  "split_at_close (c # d # cs) =
     (if c = CHR ''}'' \<and> d = CHR ''}'' then Some ([], cs)
      else (case split_at_close (d # cs) of
              None \<Rightarrow> None
            | Some (inner, rest) \<Rightarrow> Some (c # inner, rest)))"
| "split_at_close _ = None"

lemma split_at_close_shorter:
  "split_at_close s = Some (inner, rest) \<Longrightarrow> length rest < length s"
  by (induction s arbitrary: inner rest rule: split_at_close.induct)
     (auto split: if_splits option.splits)

fun add_data :: "char \<Rightarrow> piece list \<Rightarrow> piece list" where
  "add_data c (TemplateData t # ps) = TemplateData (c # t) # ps"
| "add_data c ps = TemplateData [c] # ps"

function parse :: "string \<Rightarrow> piece list option" where
  "parse [] = Some []"
| "parse (c # cs) =
     (if c = CHR ''{'' \<and> cs \<noteq> [] \<and> hd cs = CHR ''{'' then
        (case split_at_close (tl cs) of
           None \<Rightarrow> None
         | Some (inner, rest) \<Rightarrow>
             (case name_of inner of
                None \<Rightarrow> None
              | Some n \<Rightarrow>
                  (case parse rest of
                     None \<Rightarrow> None
                   | Some ps \<Rightarrow> Some (Name n # ps))))
      else if c = CHR ''{'' \<and> cs \<noteq> [] \<and> (hd cs = CHR ''%'' \<or> hd cs = CHR ''#'') then
        None
      else (case parse cs of
              None \<Rightarrow> None
            | Some ps \<Rightarrow> Some (add_data c ps)))"
  by pat_completeness auto
termination
proof (relation "measure length")
  show "wf (measure length)" by simp
next
  fix c :: char and cs x2 inner rest n
  assume "c = CHR ''{'' \<and> cs \<noteq> [] \<and> hd cs = CHR ''{''"
    and "split_at_close (tl cs) = Some x2" and "(inner, rest) = x2"
  then have "length rest < length (tl cs)"
    using split_at_close_shorter [of "tl cs" inner rest] by simp
  then show "(rest, c # cs) \<in> measure length" by simp
next
  fix c :: char and cs
  show "(cs, c # cs) \<in> measure length" by simp
qed

definition fragment :: "string \<Rightarrow> piece list option" where
  "fragment source = parse (strip_trailing_newline (normalize_newlines source))"

fun render_piece :: "bindings \<Rightarrow> piece \<Rightarrow> string" where
  "render_piece bindings (TemplateData t) = t"
| "render_piece bindings (Name n) = (case map_of bindings n of Some v \<Rightarrow> v | None \<Rightarrow> [])"

definition render :: "piece list \<Rightarrow> bindings \<Rightarrow> string" where
  "render t bindings = concat (map (render_piece bindings) t)"

definition jinja2 :: "engine \<Rightarrow> engine" where
  "jinja2 other source bindings =
     (case fragment source of
        Some t \<Rightarrow> Inr (render t bindings)
      | None \<Rightarrow> other source bindings)"

section \<open>The world outside the program\<close>

text \<open>
  The file system, the JSON parser, the database and the template engine are not part of
  the pipeline. What they answer is an \<open>env\<close>, which the modelled functions take as a parameter and never
  change:
  \<^item> \<open>listdir ev d\<close> is the tree below the directory \<open>d\<close>, each directory's entries in the
    order in which the operating system enumerates them, or \<open>None\<close> when \<open>d\<close> cannot be
    listed (it does not exist, or it is not a directory);
  \<^item> \<open>file_text ev p\<close> is what reading the file \<open>p\<close> returns, or \<open>None\<close> when opening it
    raises \<^verbatim>\<open>OSError\<close>;
  \<^item> \<open>json_loads ev s\<close> is the value \<^verbatim>\<open>json.load\<close> parses from the text \<open>s\<close>;
  \<^item> \<open>connect_error ev p\<close> is the exception \<^verbatim>\<open>duckdb.connect\<close> (with the settings made
    right after it) raises for the database file \<open>p\<close>, or \<open>None\<close>;
  \<^item> \<open>driver ev qs q\<close> is the exception the connection raises when it executes the query
    \<open>q\<close> after the queries \<open>qs\<close>, or \<open>None\<close> when it returns.
  \<^item> \<open>beyond ev\<close> is what the template engine does with a source that is not written
    out above, so that the engine of a run is \<open>jinja2 (beyond ev)\<close>.

  What a run does is recorded in a \<open>world\<close>, passed through every function that acts:
  the records handed to \<^verbatim>\<open>logging\<close>, how many connections have been opened and how many
  calls of \<^verbatim>\<open>close\<close> made, and the queries submitted for execution, in order.
\<close>

datatype entry = File string | Dir string "entry list"

datatype json =
    JObject "(string \<times> json) list"
  | JArray "json list"
  | JString string
  | JNumber int
  | JBool bool
  | JNull

record env =
  listdir :: "string \<Rightarrow> entry list option"
  file_text :: "string \<Rightarrow> string option"
  json_loads :: "string \<Rightarrow> json result"
  connect_error :: "string \<Rightarrow> exn option"
  driver :: "string list \<Rightarrow> string \<Rightarrow> exn option"
  beyond :: engine

text \<open>
  One constructor per logging call of the source:
  \<^verbatim>\<open>"Connecting to database at {path}"\<close>, \<^verbatim>\<open>"Closing database connection"\<close>,
  \<^verbatim>\<open>"Found {n} sql scripts at location {parent_dir}"\<close>,
  \<^verbatim>\<open>"Executed query from {query_path}"\<close>, \<^verbatim>\<open>"Extracting data from {data_file_path}"\<close>,
  \<^verbatim>\<open>"Extracted data from {data_file_path}!"\<close> and
  \<^verbatim>\<open>"Could not find data from {data_file_path}: {e}"\<close>. The last is logged at level
  \<open>WARNING\<close>, the others at \<open>INFO\<close>.
\<close>

datatype log_record =
    Connecting string
  | Closing
  | Found nat string
  | Executed string
  | Extracting string
  | Extracted string
  | CouldNotFind string string

datatype level = INFO | WARNING

fun levelname :: "log_record \<Rightarrow> level" where
  "levelname (CouldNotFind data_file_path e) = WARNING"
| "levelname _ = INFO"

record world =
  logged :: "log_record list"
  opened :: nat
  closed :: nat
  submitted :: "string list"

definition logging :: "log_record \<Rightarrow> world \<Rightarrow> world" where
  "logging r w = w\<lparr>logged := logged w @ [r]\<rparr>"

section \<open>database\_manager.py\<close>

definition connect_to_database :: "env \<Rightarrow> string \<Rightarrow> world \<Rightarrow> exn option \<times> world" where
  "connect_to_database ev path w =
     (let w1 = logging (Connecting path) w
      in case connect_error ev path of
           Some e \<Rightarrow> (Some e, w1)
         | None \<Rightarrow> (None, w1\<lparr>opened := opened w1 + 1\<rparr>))"

definition close_database_connection :: "world \<Rightarrow> world" where
  "close_database_connection w = (logging Closing w)\<lparr>closed := closed w + 1\<rparr>"

text \<open>
  \<^verbatim>\<open>os.path.join\<close> on POSIX. \<^verbatim>\<open>os.walk\<close> visits a directory, then each of its
  subdirectories in the order listed; with no \<^verbatim>\<open>onerror\<close> handler it yields nothing
  for a directory it cannot list. \<open>walk\<close> returns, per directory visited, its path and the
  names of its entries that are not directories: \<^verbatim>\<open>collect_query_paths\<close> ignores the
  middle component of each triple. A subdirectory that \<^verbatim>\<open>os.walk\<close> does not enter (a
  symbolic link, or one it cannot list) yields no file, as an empty \<open>Dir\<close> does.
\<close>

definition path_join :: "string \<Rightarrow> string \<Rightarrow> string" where
  "path_join a b =
     (if b \<noteq> [] \<and> hd b = CHR ''/'' then b
      else if a = [] \<or> last a = CHR ''/'' then a @ b
      else a @ ''/'' @ b)"

fun file_names :: "entry list \<Rightarrow> string list" where
  "file_names [] = []"
| "file_names (File name # es) = name # file_names es"
| "file_names (Dir name children # es) = file_names es"

fun walk :: "string \<Rightarrow> entry list \<Rightarrow> (string \<times> string list) list"
  and walk_dirs :: "string \<Rightarrow> entry list \<Rightarrow> (string \<times> string list) list" where
  "walk root es = (root, file_names es) # walk_dirs root es"
| "walk_dirs root [] = []"
| "walk_dirs root (File name # es) = walk_dirs root es"
| "walk_dirs root (Dir name children # es) =
     walk (path_join root name) children @ walk_dirs root es"

definition os_walk :: "env \<Rightarrow> string \<Rightarrow> (string \<times> string list) list" where
  "os_walk ev parent_dir =
     (case listdir ev parent_dir of None \<Rightarrow> [] | Some es \<Rightarrow> walk parent_dir es)"

definition sql_files_of :: "(string \<times> string list) list \<Rightarrow> string list" where
  "sql_files_of visited =
     concat (map (\<lambda>(root, files).
        map (path_join root) (filter (\<lambda>file. endswith file ''.sql'') files)) visited)"

definition collect_query_paths :: "env \<Rightarrow> string \<Rightarrow> world \<Rightarrow> string list \<times> world" where
  "collect_query_paths ev parent_dir w =
     (let sql_files = sql_files_of (os_walk ev parent_dir)
      in (sort sql_files, logging (Found (length sql_files) parent_dir) w))"

definition read_query :: "env \<Rightarrow> string \<Rightarrow> string result" where
  "read_query ev path =
     (case file_text ev path of None \<Rightarrow> Inl OSError | Some query \<Rightarrow> Inr query)"

definition execute_query :: "env \<Rightarrow> string \<Rightarrow> world \<Rightarrow> exn option \<times> world" where
  "execute_query ev query w =
     (driver ev (submitted w) query, w\<lparr>submitted := submitted w @ [query]\<rparr>)"

text \<open>
  The loop over \<^verbatim>\<open>query_paths\<close>, which \<^verbatim>\<open>setup_database\<close> and \<^verbatim>\<open>transform_data\<close>
  have word for word: read the file, execute its text, log. There is no \<^verbatim>\<open>try\<close>
  around it, so an exception leaves the loop and the function at once.
\<close>

fun run_query_files :: "env \<Rightarrow> string list \<Rightarrow> world \<Rightarrow> exn option \<times> world" where
  "run_query_files ev [] w = (None, w)"
| "run_query_files ev (query_path # query_paths) w =
     (case read_query ev query_path of
        Inl e \<Rightarrow> (Some e, w)
      | Inr query \<Rightarrow>
          (case execute_query ev query w of
             (Some e, w1) \<Rightarrow> (Some e, w1)
           | (None, w1) \<Rightarrow> run_query_files ev query_paths (logging (Executed query_path) w1)))"

definition setup_database :: "env \<Rightarrow> string \<Rightarrow> string \<Rightarrow> world \<Rightarrow> exn option \<times> world" where
  "setup_database ev database_path ddl_query_parent_dir w =
     (case collect_query_paths ev ddl_query_parent_dir w of
        (query_paths, w1) \<Rightarrow>
          (case connect_to_database ev database_path w1 of
             (Some e, w2) \<Rightarrow> (Some e, w2)
           | (None, w2) \<Rightarrow>
               (case run_query_files ev query_paths w2 of
                  (Some e, w3) \<Rightarrow> (Some e, w3)
                | (None, w3) \<Rightarrow> (None, close_database_connection w3))))"

text \<open>
  \<^verbatim>\<open>destroy_database\<close> changes the file system, which is here what each path names,
  together with what the operating system refuses there. Paths are compared as they are
  written.

  \<^item> \<^verbatim>\<open>os.path.exists\<close> is \<^verbatim>\<open>os.stat\<close> without its exception: it is true of a
    directory as of a file, and false where \<^verbatim>\<open>os.stat\<close> fails, which it also does for
    lack of permission on the way to the path and for a symbolic link that leads nowhere.
  \<^item> \<^verbatim>\<open>os.remove\<close> unlinks a name. It raises \<^verbatim>\<open>OSError\<close> for a directory
    (\<^verbatim>\<open>IsADirectoryError\<close> or \<^verbatim>\<open>PermissionError\<close>), for a path that names nothing
    (\<^verbatim>\<open>FileNotFoundError\<close>), and for a name the process may not unlink
    (\<^verbatim>\<open>PermissionError\<close>: a directory it cannot write, a file in use). It does not
    follow a symbolic link: it unlinks the link.
\<close>

datatype node = RegularFile | SymbolicLink | Directory

record files =
  node_at :: "string \<Rightarrow> node option"
  stat_fails :: "string \<Rightarrow> bool"
  unlink_denied :: "string \<Rightarrow> bool"

definition os_path_exists :: "files \<Rightarrow> string \<Rightarrow> bool" where
  "os_path_exists fs path = (node_at fs path \<noteq> None \<and> \<not> stat_fails fs path)"

definition os_remove :: "files \<Rightarrow> string \<Rightarrow> files result" where
  "os_remove fs path =
     (case node_at fs path of
        None \<Rightarrow> Inl OSError
      | Some Directory \<Rightarrow> Inl OSError
      | Some _ \<Rightarrow>
          if unlink_denied fs path then Inl OSError
          else Inr (fs\<lparr>node_at := (node_at fs)(path := None)\<rparr>))"

definition destroy_database :: "files \<Rightarrow> string \<Rightarrow> files result" where
  "destroy_database fs database_path =
     (if os_path_exists fs database_path then os_remove fs database_path else Inr fs)"

section \<open>extraction.py\<close>

text \<open>
  \<^verbatim>\<open>json.load\<close> turns a JSON object into a \<^verbatim>\<open>dict\<close>, whose keys come in the order of
  their first appearance; any other JSON value has no \<^verbatim>\<open>keys\<close>.
\<close>

definition dict_keys :: "(string \<times> 'v) list \<Rightarrow> string list" where
  "dict_keys kvs = rev (remdups (rev (map fst kvs)))"

definition read_location_ids :: "env \<Rightarrow> string \<Rightarrow> string list result" where
  "read_location_ids ev file_path =
     (case file_text ev file_path of
        None \<Rightarrow> Inl OSError
      | Some text \<Rightarrow>
          (case json_loads ev text of
             Inl e \<Rightarrow> Inl e
           | Inr (JObject locations) \<Rightarrow> Inr (dict_keys locations)
           | Inr _ \<Rightarrow> Inl AttributeError))"

text \<open>
  The \<^verbatim>\<open>while\<close> loop of \<^verbatim>\<open>compile_data_file_paths\<close> for one location, and the
  \<^verbatim>\<open>for\<close> loop around it. The template is compiled and rendered anew in every
  iteration, as in the source; \<open>jinja\<close> is the template engine.
\<close>

function month_loop ::
  "engine \<Rightarrow> string \<Rightarrow> string \<Rightarrow> datetime \<Rightarrow> datetime \<Rightarrow> string list \<Rightarrow> string list result"
  where
  "month_loop jinja data_file_path_template location_id index_date end_date data_file_paths =
     (if datetime_le index_date end_date then
        (case jinja data_file_path_template
                [(''location_id'', location_id),
                 (''year'', str_nat (year index_date)),
                 (''month'', zfill 2 (str_nat (month index_date)))] of
           Inl e \<Rightarrow> Inl e
         | Inr data_file_path \<Rightarrow>
             (case add_one_month index_date of
                Inl e \<Rightarrow> Inl e
              | Inr next_date \<Rightarrow>
                  month_loop jinja data_file_path_template location_id next_date end_date
                    (data_file_paths @ [data_file_path])))
      else Inr data_file_paths)"
  by pat_completeness auto
termination
proof (relation "measures [\<lambda>(j, t, l, i, e, acc). year e + 1 - year i,
                           \<lambda>(j, t, l, i, e, acc). 12 - month i]")
  show "wf (measures [\<lambda>(j, t, l, i, e, acc). year e + 1 - year i,
                      \<lambda>(j :: engine, t :: string, l :: string, i, e :: datetime,
                         acc :: string list). 12 - month i])"
    by simp
next
  fix jinja :: engine and data_file_path_template location_id data_file_path :: string
    and index_date end_date next_date :: datetime
    and data_file_paths :: "string list"
  assume le: "datetime_le index_date end_date"
    and nx: "add_one_month index_date = Inr next_date"
  show "((jinja, data_file_path_template, location_id, next_date, end_date,
          data_file_paths @ [data_file_path]),
         (jinja, data_file_path_template, location_id, index_date, end_date, data_file_paths))
        \<in> measures [\<lambda>(j, t, l, i, e, acc). year e + 1 - year i,
                      \<lambda>(j, t, l, i, e, acc). 12 - month i]"
    using le nx
    by (auto simp: add_one_month_def datetime_le_def Let_def split: if_splits)
qed

declare month_loop.simps [simp del]

fun location_loop ::
  "engine \<Rightarrow> string \<Rightarrow> string list \<Rightarrow> datetime \<Rightarrow> datetime \<Rightarrow> string list
     \<Rightarrow> string list result" where
  "location_loop jinja data_file_path_template [] start_date end_date data_file_paths =
     Inr data_file_paths"
| "location_loop jinja data_file_path_template (location_id # location_ids) start_date end_date
       data_file_paths =
     (case month_loop jinja data_file_path_template location_id start_date end_date
             data_file_paths of
        Inl e \<Rightarrow> Inl e
      | Inr data_file_paths' \<Rightarrow>
          location_loop jinja data_file_path_template location_ids start_date end_date
            data_file_paths')"

definition compile_data_file_paths ::
  "engine \<Rightarrow> string \<Rightarrow> string list \<Rightarrow> string \<Rightarrow> string \<Rightarrow> string list result" where
  "compile_data_file_paths jinja data_file_path_template location_ids start_date end_date =
     (case strptime_ym start_date of
        Inl e \<Rightarrow> Inl e
      | Inr start_dt \<Rightarrow>
          (case strptime_ym end_date of
             Inl e \<Rightarrow> Inl e
           | Inr end_dt \<Rightarrow>
               location_loop jinja data_file_path_template location_ids start_dt end_dt []))"

definition compile_data_file_query :: "engine \<Rightarrow> string \<Rightarrow> string \<Rightarrow> string \<Rightarrow> string result"
  where
  "compile_data_file_query jinja base_path data_file_path extract_query_template =
     jinja extract_query_template [(''data_file_path'', base_path @ ''/'' @ data_file_path)]"

record extract_args =
  locations_file_path :: string
  start_date :: string
  end_date :: string
  extract_query_template_path :: string
  database_path :: string
  source_base_path :: string

text \<open>The template of line 137, a constant of \<^verbatim>\<open>extract_data\<close>.\<close>

definition data_file_path_template :: string where
  "data_file_path_template = ''locationid={{location_id}}/year={{year}}/month={{month}}/*''"

text \<open>
  The loop of \<^verbatim>\<open>extract_data\<close>. Only \<^verbatim>\<open>execute_query\<close> stands inside the
  \<^verbatim>\<open>try\<close>, and only \<^verbatim>\<open>IOException\<close> is caught: the loop goes on after it with a
  warning, and any other exception leaves the loop and the function, as does every
  exception raised while the query is rendered.
\<close>

fun extract_loop ::
  "env \<Rightarrow> string \<Rightarrow> string \<Rightarrow> string list \<Rightarrow> world \<Rightarrow> exn option \<times> world" where
  "extract_loop ev base_path extract_query_template [] w = (None, w)"
| "extract_loop ev base_path extract_query_template (data_file_path # data_file_paths) w =
     (let w1 = logging (Extracting data_file_path) w
      in case compile_data_file_query (jinja2 (beyond ev)) base_path data_file_path
                extract_query_template of
           Inl e \<Rightarrow> (Some e, w1)
         | Inr query \<Rightarrow>
             (case execute_query ev query w1 of
                (None, w2) \<Rightarrow>
                  extract_loop ev base_path extract_query_template data_file_paths
                    (logging (Extracted data_file_path) w2)
              | (Some (IOException msg), w2) \<Rightarrow>
                  extract_loop ev base_path extract_query_template data_file_paths
                    (logging (CouldNotFind data_file_path msg) w2)
              | (Some e, w2) \<Rightarrow> (Some e, w2)))"

definition extract_data :: "env \<Rightarrow> extract_args \<Rightarrow> world \<Rightarrow> exn option \<times> world" where
  "extract_data ev args w =
     (case read_location_ids ev (locations_file_path args) of
        Inl e \<Rightarrow> (Some e, w)
      | Inr location_ids \<Rightarrow>
          (case compile_data_file_paths (jinja2 (beyond ev)) data_file_path_template
                  location_ids (start_date args) (end_date args) of
             Inl e \<Rightarrow> (Some e, w)
           | Inr data_file_paths \<Rightarrow>
               (case read_query ev (extract_query_template_path args) of
                  Inl e \<Rightarrow> (Some e, w)
                | Inr extract_query_template \<Rightarrow>
                    (case connect_to_database ev (database_path args) w of
                       (Some e, w1) \<Rightarrow> (Some e, w1)
                     | (None, w1) \<Rightarrow>
                         (case extract_loop ev (source_base_path args) extract_query_template
                                 data_file_paths w1 of
                            (Some e, w2) \<Rightarrow> (Some e, w2)
                          | (None, w2) \<Rightarrow> (None, close_database_connection w2))))))"

section \<open>transformation.py\<close>

record transform_args =
  t_database_path :: string
  query_directory :: string

definition transform_data :: "env \<Rightarrow> transform_args \<Rightarrow> world \<Rightarrow> exn option \<times> world" where
  "transform_data ev args w =
     (case connect_to_database ev (t_database_path args) w of
        (Some e, w1) \<Rightarrow> (Some e, w1)
      | (None, w1) \<Rightarrow>
          (case collect_query_paths ev (query_directory args) w1 of
             (query_paths, w2) \<Rightarrow>
               (case run_query_files ev query_paths w2 of
                  (Some e, w3) \<Rightarrow> (Some e, w3)
                | (None, w3) \<Rightarrow> (None, close_database_connection w3))))"

section \<open>Notions the statements use\<close>

subsection \<open>Calendar months\<close>

text \<open>
  The months from \<open>s\<close> to \<open>e\<close>, both included, in chronological order, counted on the
  calendar and not by the loop: month \<open>m\<close> of year \<open>y\<close> is number \<open>12 * y + (m - 1)\<close>.
  \<open>last_month\<close> is December 9999, the last month a \<^verbatim>\<open>datetime\<close> holds.
\<close>

definition valid_month :: "datetime \<Rightarrow> bool" where
  "valid_month d =
     (MINYEAR \<le> year d \<and> year d \<le> MAXYEAR \<and> 1 \<le> month d \<and> month d \<le> 12)"

definition month_index :: "datetime \<Rightarrow> nat" where
  "month_index d = 12 * year d + (month d - 1)"

definition month_of_index :: "nat \<Rightarrow> datetime" where
  "month_of_index i = \<lparr>year = i div 12, month = i mod 12 + 1\<rparr>"

definition months_between :: "datetime \<Rightarrow> datetime \<Rightarrow> datetime list" where
  "months_between s e = map month_of_index [month_index s ..< Suc (month_index e)]"

definition month_count :: "datetime \<Rightarrow> datetime \<Rightarrow> nat" where
  "month_count s e = Suc (month_index e) - month_index s"

definition datetime_less :: "datetime \<Rightarrow> datetime \<Rightarrow> bool" where
  "datetime_less a b = (year a < year b \<or> (year a = year b \<and> month a < month b))"

definition last_month :: datetime where
  "last_month = \<lparr>year = MAXYEAR, month = 12\<rparr>"

text \<open>
  The bindings with which the path template is rendered for one partition, and the path
  of the partition for a template of the part written out above.
\<close>

definition partition_bindings :: "string \<Rightarrow> datetime \<Rightarrow> bindings" where
  "partition_bindings location_id d =
     [(''location_id'', location_id), (''year'', str_nat (year d)),
      (''month'', zfill 2 (str_nat (month d)))]"

definition partition_path :: "piece list \<Rightarrow> string \<Rightarrow> datetime \<Rightarrow> string" where
  "partition_path t location_id d = render t (partition_bindings location_id d)"

text \<open>The pieces of the path template of \<^verbatim>\<open>extract_data\<close>.\<close>

definition path_pieces :: "piece list" where
  "path_pieces =
     [TemplateData ''locationid='', Name ''location_id'', TemplateData ''/year='',
      Name ''year'', TemplateData ''/month='', Name ''month'', TemplateData ''/*'']"

subsection \<open>Directory trees\<close>

text \<open>
  \<open>file_in root es name p\<close>: the tree \<open>es\<close> below the directory \<open>root\<close> has, at some
  depth, a file called \<open>name\<close> whose full path is \<open>p\<close>. \<open>count_sql\<close> counts the files of
  a tree whose name ends in \<^verbatim>\<open>.sql\<close>. Two trees are \<open>reordered\<close> when they hold the
  same entries and differ only in the order in which directories list them.
\<close>

inductive file_in :: "string \<Rightarrow> entry list \<Rightarrow> string \<Rightarrow> string \<Rightarrow> bool" where
  here: "File name \<in> set es \<Longrightarrow> file_in root es name (path_join root name)"
| below: "Dir d children \<in> set es \<Longrightarrow> file_in (path_join root d) children name p
          \<Longrightarrow> file_in root es name p"

code_pred file_in .

fun count_sql :: "entry list \<Rightarrow> nat" where
  "count_sql [] = 0"
| "count_sql (File name # es) = (if endswith name ''.sql'' then 1 else 0) + count_sql es"
| "count_sql (Dir name children # es) = count_sql children + count_sql es"

inductive reordered :: "entry list \<Rightarrow> entry list \<Rightarrow> bool" where
  same: "reordered es es"
| swap: "reordered (a # b # es) (b # a # es)"
| tail: "reordered es es' \<Longrightarrow> reordered (e # es) (e # es')"
| inside: "reordered children children' \<Longrightarrow>
           reordered (Dir d children # es) (Dir d children' # es)"
| chain: "reordered es es' \<Longrightarrow> reordered es' es'' \<Longrightarrow> reordered es es''"

subsection \<open>Outcomes of a query\<close>

text \<open>An outcome the extraction loop goes on after: the query returned, or raised
  \<^verbatim>\<open>IOException\<close>.\<close>

fun tolerated :: "exn option \<Rightarrow> bool" where
  "tolerated None = True"
| "tolerated (Some e) = is_IOException e"

subsection \<open>Example inputs\<close>

definition fresh :: world where
  "fresh = \<lparr>logged = [], opened = 0, closed = 0, submitted = []\<rparr>"

text \<open>
  An environment with a directory \<^verbatim>\<open>sql\<close> holding the tree \<open>es\<close>, a locations file
  with the one location \<^verbatim>\<open>A\<close>, an extraction template, the same text in every other
  file, a database that connects and executes every query, and a template engine whose
  answer outside the part of the language written out above is an exception (the
  examples reach it only with an unknown block tag, which the library refuses);
  \<open>with_driver\<close> replaces the answers of the database and \<open>with_template\<close> the text of
  the extraction template.
\<close>

definition locations_text :: string where
  "locations_text =
     [CHR ''{'', CHR 0x22, CHR ''A'', CHR 0x22, CHR '':'', CHR '' '', CHR ''{'', CHR ''}'', CHR ''}'']"

definition tree_env :: "entry list \<Rightarrow> env" where
  "tree_env es =
     \<lparr>listdir = (\<lambda>d. if d = ''sql'' then Some es else None),
      file_text = (\<lambda>p. if p = ''locations.json'' then Some locations_text
                        else if p = ''extract.sql'' then Some ''COPY {{data_file_path}}''
                        else Some ''CREATE TABLE t (x INT)''),
      json_loads = (\<lambda>s. if s = locations_text then Inr (JObject [(''A'', JObject [])])
                         else Inl ValueError),
      connect_error = (\<lambda>p. None),
      driver = (\<lambda>qs q. None),
      beyond = (\<lambda>source bindings. Inl TemplateError)\<rparr>"

definition with_driver :: "env \<Rightarrow> (string list \<Rightarrow> string \<Rightarrow> exn option) \<Rightarrow> env" where
  "with_driver ev d = ev\<lparr>driver := d\<rparr>"

definition with_template :: "env \<Rightarrow> string \<Rightarrow> env" where
  "with_template ev text =
     ev\<lparr>file_text := (\<lambda>p. if p = ''extract.sql'' then Some text else file_text ev p)\<rparr>"

text \<open>
  Three databases: one where the second query of a session finds no file, one where it
  fails for another reason, and one where every query fails.
\<close>

definition second_missing :: "string list \<Rightarrow> string \<Rightarrow> exn option" where
  "second_missing qs q = (if length qs = 1 then Some (IOException ''No files found'') else None)"

definition second_fails :: "string list \<Rightarrow> string \<Rightarrow> exn option" where
  "second_fails qs q = (if length qs = 1 then Some (DriverError ''Catalog Error'') else None)"

definition always_fails :: "string list \<Rightarrow> string \<Rightarrow> exn option" where
  "always_fails qs q = Some (DriverError ''Catalog Error'')"

definition tree1 :: "entry list" where
  "tree1 = [File ''b.sql'', File ''a.sql'', Dir ''sub'' [File ''c.sql'', File ''notes.txt'']]"

definition tree2 :: "entry list" where
  "tree2 = [File ''a.sql'', File ''b.sql'', Dir ''sub'' [File ''c.sql'', File ''notes.txt'']]"

definition transform_example :: transform_args where
  "transform_example = \<lparr>t_database_path = ''air_quality.db'', query_directory = ''sql''\<rparr>"

definition extract_example :: "string \<Rightarrow> string \<Rightarrow> extract_args" where
  "extract_example first_month final_month =
     \<lparr>locations_file_path = ''locations.json'', start_date = first_month,
      end_date = final_month, extract_query_template_path = ''extract.sql'',
      database_path = ''air_quality.db'', source_base_path = ''s3://bucket''\<rparr>"

text \<open>A file system with the database file and nothing else, and one with nothing.\<close>

definition database_file :: files where
  "database_file =
     \<lparr>node_at = (\<lambda>p. if p = ''air_quality.db'' then Some RegularFile else None),
      stat_fails = (\<lambda>p. False), unlink_denied = (\<lambda>p. False)\<rparr>"

definition no_file :: files where
  "no_file = \<lparr>node_at = (\<lambda>p. None), stat_fails = (\<lambda>p. False), unlink_denied = (\<lambda>p. False)\<rparr>"

subsection \<open>Sessions\<close>

text \<open>
  What a run that starts in \<open>w\<close> and ends with the result \<open>r\<close> in \<open>w'\<close> has done
  with its session: \<^verbatim>\<open>close\<close> was called once if the run returned and not at all if
  it raised; a run that returned had opened one connection; and so had a run that
  submitted a query.
\<close>

definition session_account :: "world \<Rightarrow> exn option \<times> world \<Rightarrow> bool" where
  "session_account w out =
     (case out of
        (r, w') \<Rightarrow>
          closed w' = closed w + (if r = None then 1 else 0)
          \<and> (r = None \<longrightarrow> opened w' = opened w + 1)
          \<and> (submitted w' \<noteq> submitted w \<longrightarrow> opened w' = opened w + 1))"

section \<open>Partition expansion\<close>

lemma digit_val_less: "is_digit c \<Longrightarrow> digit_val c < 10"
  unfolding is_digit_def digit_val_def
  by (cases c) (auto simp: less_eq_char_def)

lemma month_field_range: "month_field s = Some m \<Longrightarrow> 1 \<le> m \<and> m \<le> 12"
  unfolding month_field_def digit_val_def
  by (auto simp: less_eq_char_def split: list.splits if_splits)

lemma strptime_ym_valid: "strptime_ym s = Inr d \<Longrightarrow> valid_month d"
proof -
  assume a: "strptime_ym s = Inr d"
  then obtain a1 a2 a3 a4 rest m where
    dg: "is_digit a1" "is_digit a2" "is_digit a3" "is_digit a4"
    and mf: "month_field rest = Some m"
    and y: "MINYEAR \<le> 1000 * digit_val a1 + 100 * digit_val a2 + 10 * digit_val a3 + digit_val a4"
    and d: "d = \<lparr>year = 1000 * digit_val a1 + 100 * digit_val a2 + 10 * digit_val a3 + digit_val a4,
                 month = m\<rparr>"
    unfolding strptime_ym_def
    by (auto simp: Let_def split: list.splits if_splits option.splits)
  from dg have "digit_val a1 < 10" "digit_val a2 < 10" "digit_val a3 < 10" "digit_val a4 < 10"
    by (simp_all add: digit_val_less)
  then have "1000 * digit_val a1 + 100 * digit_val a2 + 10 * digit_val a3 + digit_val a4 \<le> MAXYEAR"
    unfolding MAXYEAR_def by arith
  with y d month_field_range [OF mf] show ?thesis
    unfolding valid_month_def by simp
qed

lemma datetime_le_index:
  "valid_month a \<Longrightarrow> valid_month b \<Longrightarrow> datetime_le a b \<longleftrightarrow> month_index a \<le> month_index b"
  unfolding valid_month_def datetime_le_def month_index_def by arith

lemma month_of_index_inverse: "valid_month d \<Longrightarrow> month_of_index (month_index d) = d"
proof -
  assume "valid_month d"
  then obtain k where k: "month d = Suc k" "k < 12"
    unfolding valid_month_def by (cases "month d") auto
  then have "(12 * year d + k) div 12 = year d" "(12 * year d + k) mod 12 = k"
    by simp_all
  with k show ?thesis
    unfolding month_of_index_def month_index_def by (cases d) simp
qed

lemma add_one_month_index:
  assumes "valid_month d" "d \<noteq> last_month"
  shows "\<exists>n. add_one_month d = Inr n \<and> valid_month n \<and> month_index n = Suc (month_index d)"
  using assms
  unfolding valid_month_def add_one_month_def month_index_def last_month_def
  by (cases d) (auto simp: Let_def MINYEAR_def)

lemma months_between_Cons:
  assumes "valid_month i" "month_index i \<le> month_index e"
  shows "months_between i e = i # map month_of_index [Suc (month_index i) ..< Suc (month_index e)]"
proof -
  have "[month_index i ..< Suc (month_index e)] =
          month_index i # [Suc (month_index i) ..< Suc (month_index e)]"
    using assms(2) by (intro upt_conv_Cons) simp
  then show ?thesis
    unfolding months_between_def using assms(1)
    by (simp only: list.map month_of_index_inverse)
qed

lemma before_last_month:
  assumes "valid_month i" "valid_month e" "e \<noteq> last_month" "month_index i \<le> month_index e"
  shows "i \<noteq> last_month"
proof
  assume "i = last_month"
  with assms show False
    unfolding valid_month_def month_index_def last_month_def
    by (cases e) auto
qed

lemma month_loop_correct:
  assumes r: "\<And>d. jinja tmpl (partition_bindings location_id d) = Inr (path d)"
    and e: "valid_month e" "e \<noteq> last_month"
  shows "valid_month i \<Longrightarrow>
         month_loop jinja tmpl location_id i e acc = Inr (acc @ map path (months_between i e))"
proof (induction "Suc (month_index e) - month_index i" arbitrary: i acc)
  case 0
  then have "\<not> datetime_le i e"
    using e by (simp add: datetime_le_index)
  moreover from 0 have "months_between i e = []"
    unfolding months_between_def by simp
  ultimately show ?case
    by (simp add: month_loop.simps)
next
  case (Suc k)
  then have le: "month_index i \<le> month_index e" by arith
  then have dle: "datetime_le i e"
    using Suc.prems e by (simp add: datetime_le_index)
  have "i \<noteq> last_month"
    using before_last_month [OF Suc.prems e le] .
  then obtain n where n: "add_one_month i = Inr n" "valid_month n"
      "month_index n = Suc (month_index i)"
    using add_one_month_index [OF Suc.prems] by blast
  have k: "k = Suc (month_index e) - month_index n"
    using Suc.hyps(2) n(3) by arith
  have mb: "months_between i e = i # months_between n e"
    using months_between_Cons [OF Suc.prems le] n(3) unfolding months_between_def by simp
  have "month_loop jinja tmpl location_id i e acc =
          month_loop jinja tmpl location_id n e (acc @ [path i])"
    using dle r [of i] n(1)
    by (subst month_loop.simps) (simp add: partition_bindings_def)
  also have "\<dots> = Inr ((acc @ [path i]) @ map path (months_between n e))"
    using Suc.hyps(1) [OF k n(2)] .
  finally show ?case
    by (simp add: mb)
qed

lemma location_loop_correct:
  assumes "\<And>location_id d. jinja tmpl (partition_bindings location_id d) = Inr (path location_id d)"
    and "valid_month s" "valid_month e" "e \<noteq> last_month"
  shows "location_loop jinja tmpl ids s e acc =
           Inr (acc @ concat (map (\<lambda>location_id. map (path location_id)
                                     (months_between s e)) ids))"
proof (induction ids arbitrary: acc)
  case Nil
  show ?case by simp
next
  case (Cons location_id ids)
  have "month_loop jinja tmpl location_id s e acc =
          Inr (acc @ map (path location_id) (months_between s e))"
    using assms by (intro month_loop_correct) simp_all
  then show ?case
    by (simp add: Cons)
qed

lemma length_months_between: "length (months_between s e) = month_count s e"
  unfolding months_between_def month_count_def by (simp del: upt_Suc)

lemma length_concat_const:
  "length (concat (map (\<lambda>x. map (f x) ys) xs)) = length xs * length ys"
  by (induction xs) simp_all

lemma month_of_index_valid:
  assumes "valid_month s" "valid_month e" "month_index s \<le> i" "i \<le> month_index e"
  shows "valid_month (month_of_index i) \<and> month_index (month_of_index i) = i"
proof -
  have "year s \<le> i div 12" "i div 12 \<le> year e"
    using assms unfolding valid_month_def month_index_def by arith+
  then show ?thesis
    using assms(1,2) unfolding valid_month_def month_index_def month_of_index_def by simp
qed

lemma months_between_set:
  assumes "valid_month s" "valid_month e"
  shows "set (months_between s e) = {d. valid_month d \<and> datetime_le s d \<and> datetime_le d e}"
proof (intro set_eqI iffI)
  fix d assume "d \<in> set (months_between s e)"
  then obtain i where i: "month_index s \<le> i" "i \<le> month_index e" "d = month_of_index i"
    unfolding months_between_def by auto
  from month_of_index_valid [OF assms i(1,2)] i(1,2,3) assms
  show "d \<in> {d. valid_month d \<and> datetime_le s d \<and> datetime_le d e}"
    by (simp add: datetime_le_index)
next
  fix d assume "d \<in> {d. valid_month d \<and> datetime_le s d \<and> datetime_le d e}"
  then have d0: "valid_month d" "datetime_le s d" "datetime_le d e"
    by simp_all
  have d: "valid_month d" "month_index s \<le> month_index d" "month_index d \<le> month_index e"
    using d0 datetime_le_index [OF assms(1) d0(1)] datetime_le_index [OF d0(1) assms(2)]
    by simp_all
  then have "month_of_index (month_index d) \<in> set (months_between s e)"
    unfolding months_between_def by (simp del: upt_Suc)
  with d(1) show "d \<in> set (months_between s e)"
    by (simp add: month_of_index_inverse)
qed

lemma month_of_index_mono:
  assumes "i < j"
  shows "datetime_less (month_of_index i) (month_of_index j)"
proof -
  have le: "i div 12 \<le> j div 12"
    using assms by (simp add: div_le_mono)
  have i: "12 * (i div 12) + i mod 12 = i" and j: "12 * (j div 12) + j mod 12 = j"
    by (rule mult_div_mod_eq)+
  have "i div 12 < j div 12 \<or> (i div 12 = j div 12 \<and> i mod 12 < j mod 12)"
  proof (cases "i div 12 = j div 12")
    case True
    with i j assms have "i mod 12 < j mod 12" by arith
    with True show ?thesis by simp
  next
    case False
    with le show ?thesis by simp
  qed
  then show ?thesis
    unfolding datetime_less_def month_of_index_def by simp
qed

lemma months_between_sorted: "sorted_wrt datetime_less (months_between s e)"
proof -
  have "sorted_wrt (<) [month_index s ..< Suc (month_index e)]"
    by (rule sorted_wrt_upt)
  then have "sorted_wrt (\<lambda>i j. datetime_less (month_of_index i) (month_of_index j))
               [month_index s ..< Suc (month_index e)]"
    by (rule sorted_wrt_mono_rel [rotated]) (rule month_of_index_mono)
  then show ?thesis
    unfolding months_between_def by (simp only: sorted_wrt_map)
qed

lemma zfill_month:
  assumes "1 \<le> m" "m \<le> 12"
  shows "zfill 2 (str_nat m) = [digit_char (m div 10), digit_char (m mod 10)]"
proof -
  from assms have "m = 1 \<or> m = 2 \<or> m = 3 \<or> m = 4 \<or> m = 5 \<or> m = 6 \<or> m = 7 \<or> m = 8
      \<or> m = 9 \<or> m = 10 \<or> m = 11 \<or> m = 12"
    by arith
  then show ?thesis
    by (elim disjE) (simp_all add: str_nat.simps digit_char_def zfill_def)
qed

lemma months_between_month:
  "d \<in> set (months_between s e) \<Longrightarrow> 1 \<le> month d \<and> month d \<le> 12"
  unfolding months_between_def month_of_index_def by auto

text \<open>
  Where the template renders for every partition and the end is before December 9999,
  \<^verbatim>\<open>compile_data_file_paths\<close> returns the rendered paths of exactly the months from
  start to end, inclusive and in chronological order, once for each identifier in the
  order of the input list; the month is rendered as two digits; the length of the result
  is the number of identifiers times the number of months.
\<close>

lemma compile_data_file_paths_expansion:
  assumes "\<And>location_id d. jinja tmpl (partition_bindings location_id d) = Inr (path location_id d)"
    and "strptime_ym start = Inr s" and "strptime_ym end = Inr e"
    and "datetime_le s e" and "e \<noteq> last_month"
  shows "compile_data_file_paths jinja tmpl ids start end =
           Inr (concat (map (\<lambda>location_id. map (path location_id) (months_between s e)) ids))
         \<and> length (concat (map (\<lambda>location_id. map (path location_id) (months_between s e))
                      ids)) = length ids * month_count s e
         \<and> set (months_between s e) = {d. valid_month d \<and> datetime_le s d \<and> datetime_le d e}
         \<and> sorted_wrt datetime_less (months_between s e)
         \<and> (\<forall>d \<in> set (months_between s e).
               zfill 2 (str_nat (month d)) =
                 [digit_char (month d div 10), digit_char (month d mod 10)])"
proof -
  have v: "valid_month s" "valid_month e"
    using assms(2,3) by (simp_all add: strptime_ym_valid)
  have "location_loop jinja tmpl ids s e [] =
          Inr ([] @ concat (map (\<lambda>location_id. map (path location_id) (months_between s e)) ids))"
    using assms(1) v assms(5) by (rule location_loop_correct)
  then have "compile_data_file_paths jinja tmpl ids start end =
          Inr (concat (map (\<lambda>location_id. map (path location_id) (months_between s e)) ids))"
    using assms(2,3) by (simp add: compile_data_file_paths_def)
  moreover have "length (concat (map (\<lambda>location_id. map (path location_id)
                   (months_between s e)) ids)) = length ids * month_count s e"
    by (simp add: length_concat_const length_months_between)
  moreover have "\<forall>d \<in> set (months_between s e).
                   zfill 2 (str_nat (month d)) =
                     [digit_char (month d div 10), digit_char (month d mod 10)]"
    using months_between_month zfill_month by blast
  ultimately show ?thesis
    using months_between_set [OF v] months_between_sorted by blast
qed

text \<open>What the engine makes of the path template of \<^verbatim>\<open>extract_data\<close>.\<close>

lemma fragment_data_file_path_template: "fragment data_file_path_template = Some path_pieces"
  unfolding path_pieces_def by code_simp

lemma jinja2_data_file_path_template:
  "jinja2 other data_file_path_template bindings = Inr (render path_pieces bindings)"
  by (simp add: jinja2_def fragment_data_file_path_template)

lemma partition_path_convention:
  "partition_path path_pieces location_id d =
   ''locationid='' @ location_id @ ''/year='' @ str_nat (year d) @ ''/month=''
     @ zfill 2 (str_nat (month d)) @ ''/*''"
  by (simp add: partition_path_def partition_bindings_def render_def path_pieces_def)

lemma partition_path_convention_fun:
  "partition_path path_pieces location_id =
   (\<lambda>d. ''locationid='' @ location_id @ ''/year='' @ str_nat (year d) @ ''/month=''
     @ zfill 2 (str_nat (month d)) @ ''/*'')"
  by (rule ext) (rule partition_path_convention)

lemma jinja2_partition:
  "jinja2 other data_file_path_template (partition_bindings location_id d) =
     Inr (partition_path path_pieces location_id d)"
  by (simp add: jinja2_data_file_path_template partition_path_def)

lemma strptime_ym_2024_01: "strptime_ym ''2024-01'' = Inr \<lparr>year = 2024, month = 1\<rparr>"
  by (simp add: strptime_ym_def month_field_def is_digit_def digit_val_def MINYEAR_def)

lemma strptime_ym_2024_02: "strptime_ym ''2024-02'' = Inr \<lparr>year = 2024, month = 2\<rparr>"
  by (simp add: strptime_ym_def month_field_def is_digit_def digit_val_def MINYEAR_def)

lemma strptime_ym_2024_03: "strptime_ym ''2024-03'' = Inr \<lparr>year = 2024, month = 3\<rparr>"
  by (simp add: strptime_ym_def month_field_def is_digit_def digit_val_def MINYEAR_def)

lemma months_between_2024_q1:
  "months_between \<lparr>year = 2024, month = 1\<rparr> \<lparr>year = 2024, month = 3\<rparr> =
     [\<lparr>year = 2024, month = 1\<rparr>, \<lparr>year = 2024, month = 2\<rparr>, \<lparr>year = 2024, month = 3\<rparr>]"
  by (simp add: months_between_def month_index_def month_of_index_def upt_conv_Cons)

lemma months_between_2024_01:
  "months_between \<lparr>year = 2024, month = 1\<rparr> \<lparr>year = 2024, month = 1\<rparr> =
     [\<lparr>year = 2024, month = 1\<rparr>]"
  by (simp add: months_between_def month_index_def month_of_index_def upt_conv_Cons)

lemma compile_three_partitions:
  "compile_data_file_paths (jinja2 other) data_file_path_template [''A''] ''2024-01'' ''2024-03'' =
     Inr [''locationid=A/year=2024/month=01/*'', ''locationid=A/year=2024/month=02/*'',
          ''locationid=A/year=2024/month=03/*'']"
proof -
  have le: "datetime_le \<lparr>year = 2024, month = 1\<rparr> \<lparr>year = 2024, month = 3\<rparr>"
    by (simp add: datetime_le_def)
  have ne: "\<lparr>year = 2024, month = 3\<rparr> \<noteq> last_month"
    by (simp add: last_month_def)
  note inst = compile_data_file_paths_expansion
    [of "jinja2 other" data_file_path_template "partition_path path_pieces",
     OF jinja2_partition strptime_ym_2024_01 strptime_ym_2024_03 le ne,
     of "[''A'']", THEN conjunct1]
  show ?thesis
    unfolding inst months_between_2024_q1 partition_path_convention_fun
    by (simp add: str_nat.simps digit_char_def zfill_def)
qed

lemma compile_one_partition:
  "compile_data_file_paths (jinja2 other) data_file_path_template [''A''] ''2024-01'' ''2024-01'' =
     Inr [''locationid=A/year=2024/month=01/*'']"
proof -
  have le: "datetime_le \<lparr>year = 2024, month = 1\<rparr> \<lparr>year = 2024, month = 1\<rparr>"
    by (simp add: datetime_le_def)
  have ne: "\<lparr>year = 2024, month = 1\<rparr> \<noteq> last_month"
    by (simp add: last_month_def)
  note inst = compile_data_file_paths_expansion
    [of "jinja2 other" data_file_path_template "partition_path path_pieces",
     OF jinja2_partition strptime_ym_2024_01 strptime_ym_2024_01 le ne,
     of "[''A'']", THEN conjunct1]
  show ?thesis
    unfolding inst months_between_2024_01 partition_path_convention_fun
    by (simp add: str_nat.simps digit_char_def zfill_def)
qed

lemma strptime_ym_9999_12: "strptime_ym ''9999-12'' = Inr last_month"
  by (simp add: strptime_ym_def month_field_def is_digit_def digit_val_def MINYEAR_def
      MAXYEAR_def last_month_def)

text \<open>
  C1. The claim, that for every pair of months with the start not after the end the
  expansion holds one partition per entity and month, fails on the code at the last month
  a \<^verbatim>\<open>datetime\<close> holds. For the start and end month December 9999 and one location,
  the loop renders the path of that month and then advances the date, which raises:
  \<^verbatim>\<open>compile_data_file_paths\<close> ends in \<^verbatim>\<open>ValueError\<close> where the claim, the loop
  condition \<^verbatim>\<open><=\<close> and the docstring (every month from start to end, inclusive)
  promise the list of one partition.
\<close>

theorem compile_data_file_paths_last_month_raises:
  "strptime_ym ''9999-12'' = Inr last_month
   \<and> datetime_le last_month last_month
   \<and> compile_data_file_paths (jinja2 other) data_file_path_template [''A'']
        ''9999-12'' ''9999-12'' = Inl ValueError"
proof -
  have "month_loop (jinja2 other) data_file_path_template ''A'' last_month last_month [] =
          Inl ValueError"
    by (subst month_loop.simps)
       (simp add: jinja2_data_file_path_template datetime_le_def add_one_month_def
          last_month_def MAXYEAR_def)
  then show ?thesis
    by (simp add: compile_data_file_paths_def strptime_ym_9999_12 datetime_le_def)
qed

section \<open>The path convention\<close>

lemma month_loop_empty:
  "\<not> datetime_le s e \<Longrightarrow> month_loop jinja tmpl location_id s e acc = Inr acc"
  by (subst month_loop.simps) simp

lemma location_loop_empty:
  "\<not> datetime_le s e \<Longrightarrow> location_loop jinja tmpl ids s e acc = Inr acc"
  by (induction ids arbitrary: acc) (simp_all add: month_loop_empty)

lemma months_between_empty:
  assumes "valid_month s" "valid_month e" "\<not> datetime_le s e"
  shows "months_between s e = []"
  using assms unfolding months_between_def
  by (simp add: datetime_le_index del: upt_Suc)

lemma month_loop_last_month:
  assumes r: "\<And>d. jinja tmpl (partition_bindings location_id d) = Inr (path d)"
  shows "valid_month i \<Longrightarrow> month_loop jinja tmpl location_id i last_month acc = Inl ValueError"
proof (induction "month_index last_month - month_index i" arbitrary: i acc)
  case 0
  have vl: "valid_month last_month"
    by (simp add: valid_month_def last_month_def MINYEAR_def MAXYEAR_def)
  have "month_index i \<le> month_index last_month"
    using "0.prems"
    by (auto simp: valid_month_def month_index_def last_month_def MAXYEAR_def)
  with 0 have "month_index i = month_index last_month" by arith
  then have "month_of_index (month_index i) = month_of_index (month_index last_month)"
    by simp
  then have i: "i = last_month"
    using "0.prems" vl by (simp add: month_of_index_inverse)
  show ?case
    unfolding i using r [of last_month]
    by (subst month_loop.simps)
       (simp add: datetime_le_def add_one_month_def last_month_def MAXYEAR_def
          partition_bindings_def)
next
  case (Suc k)
  have vl: "valid_month last_month"
    by (simp add: valid_month_def last_month_def MINYEAR_def MAXYEAR_def)
  from Suc.hyps(2) have lt: "month_index i < month_index last_month" by arith
  then have ne: "i \<noteq> last_month" by auto
  have dle: "datetime_le i last_month"
    using lt Suc.prems vl by (simp add: datetime_le_index)
  obtain n where n: "add_one_month i = Inr n" "valid_month n"
      "month_index n = Suc (month_index i)"
    using add_one_month_index [OF Suc.prems ne] by blast
  have k: "k = month_index last_month - month_index n"
    using Suc.hyps(2) n(3) by arith
  have "month_loop jinja tmpl location_id i last_month acc =
          month_loop jinja tmpl location_id n last_month (acc @ [path i])"
    using dle r [of i] n(1)
    by (subst month_loop.simps) (simp add: partition_bindings_def)
  then show ?case
    using Suc.hyps(1) [OF k n(2)] by simp
qed

lemma location_loop_result:
  assumes t: "\<And>location_id d. jinja tmpl (partition_bindings location_id d) =
                Inr (path location_id d)"
    and v: "valid_month s" "valid_month e"
    and r: "location_loop jinja tmpl ids s e acc = Inr paths"
  shows "paths = acc @ concat (map (\<lambda>location_id. map (path location_id)
                                      (months_between s e)) ids)"
proof (cases "e = last_month")
  case False
  with location_loop_correct [of jinja tmpl path, OF t v False, of ids acc] r show ?thesis
    by simp
next
  case True
  show ?thesis
  proof (cases "datetime_le s e")
    case False
    with v r show ?thesis
      by (simp add: location_loop_empty months_between_empty)
  next
    case le: True
    show ?thesis
    proof (cases ids)
      case Nil
      with r show ?thesis by simp
    next
      case (Cons location_id rest)
      have "month_loop jinja tmpl location_id s last_month acc = Inl ValueError"
        using t v(1) by (intro month_loop_last_month) simp_all
      with Cons r True show ?thesis
        by simp
    qed
  qed
qed

lemma length_str_nat_1: "n < 10 \<Longrightarrow> length (str_nat n) = 1"
  by (subst str_nat.simps) simp

lemma length_str_nat_Suc: "10 \<le> n \<Longrightarrow> length (str_nat n) = Suc (length (str_nat (n div 10)))"
  by (subst str_nat.simps) simp

lemma length_str_nat_4:
  assumes "1000 \<le> n" "n \<le> 9999"
  shows "length (str_nat n) = 4"
proof -
  have a: "10 \<le> n" "10 \<le> n div 10" "10 \<le> n div 10 div 10" "n div 10 div 10 div 10 < 10"
    using assms by arith+
  show ?thesis
    by (simp add: length_str_nat_Suc [OF a(1)] length_str_nat_Suc [OF a(2)]
        length_str_nat_Suc [OF a(3)] length_str_nat_1 [OF a(4)])
qed

lemma jinja2_data_file_path_only:
  "jinja2 other ''{{data_file_path}}'' bindings = Inr (render [Name ''data_file_path''] bindings)"
proof -
  have "fragment ''{{data_file_path}}'' = Some [Name ''data_file_path'']"
    by code_simp
  then show ?thesis by (simp add: jinja2_def)
qed

text \<open>
  C9 (amended). Every data file path that \<^verbatim>\<open>compile_data_file_paths\<close> produces from
  the template of \<^verbatim>\<open>extract_data\<close> is
  \<^verbatim>\<open>locationid={id}/year={Y}/month={MM}/*\<close> for the corresponding location identifier
  and month of the range: the directory is \<^verbatim>\<open>locationid=\<close>, the month has two digits,
  and the year is written without padding, which is four digits from the year 1000 on.
  The path handed to the query template is the base path, a slash, and this path.
\<close>

theorem data_file_paths_convention:
  assumes "strptime_ym start = Inr s" and "strptime_ym end = Inr e"
    and "compile_data_file_paths (jinja2 other) data_file_path_template ids start end =
           Inr paths"
  shows "paths =
           concat (map (\<lambda>location_id.
             map (\<lambda>d. ''locationid='' @ location_id @ ''/year='' @ str_nat (year d)
                        @ ''/month='' @ zfill 2 (str_nat (month d)) @ ''/*'')
                 (months_between s e)) ids)
         \<and> (\<forall>d \<in> set (months_between s e).
               length (zfill 2 (str_nat (month d))) = 2
               \<and> (1000 \<le> year d \<longrightarrow> length (str_nat (year d)) = 4))
         \<and> compile_data_file_query (jinja2 other) base_path p ''{{data_file_path}}'' =
             Inr (base_path @ ''/'' @ p)"
proof -
  have v: "valid_month s" "valid_month e"
    using assms(1,2) by (simp_all add: strptime_ym_valid)
  have "location_loop (jinja2 other) data_file_path_template ids s e [] = Inr paths"
    using assms by (simp add: compile_data_file_paths_def)
  from location_loop_result [of "jinja2 other" data_file_path_template
      "partition_path path_pieces", OF jinja2_partition v this]
  have 1: "paths =
           concat (map (\<lambda>location_id.
             map (\<lambda>d. ''locationid='' @ location_id @ ''/year='' @ str_nat (year d)
                        @ ''/month='' @ zfill 2 (str_nat (month d)) @ ''/*'')
                 (months_between s e)) ids)"
    by (simp only: partition_path_convention_fun append_Nil)
  have 2: "\<forall>d \<in> set (months_between s e).
               length (zfill 2 (str_nat (month d))) = 2
               \<and> (1000 \<le> year d \<longrightarrow> length (str_nat (year d)) = 4)"
  proof (intro ballI conjI impI)
    fix d assume d: "d \<in> set (months_between s e)"
    then have "1 \<le> month d \<and> month d \<le> 12" by (rule months_between_month)
    then show "length (zfill 2 (str_nat (month d))) = 2"
      by (simp add: zfill_month)
    assume "1000 \<le> year d"
    moreover from d have "year d \<le> 9999"
      using months_between_set [OF v] unfolding valid_month_def MAXYEAR_def by auto
    ultimately show "length (str_nat (year d)) = 4"
      by (rule length_str_nat_4)
  qed
  have 3: "compile_data_file_query (jinja2 other) base_path p ''{{data_file_path}}'' =
             Inr (base_path @ ''/'' @ p)"
    by (simp add: compile_data_file_query_def jinja2_data_file_path_only render_def)
  from 1 2 3 show ?thesis by blast
qed

theorem data_file_paths_convention_witness:
  "strptime_ym ''2024-01'' = Inr \<lparr>year = 2024, month = 1\<rparr>
   \<and> compile_data_file_paths (jinja2 (\<lambda>source bindings. Inl TemplateError))
         data_file_path_template [''A''] ''2024-01'' ''2024-01'' =
       Inr [''locationid=A/year=2024/month=01/*'']
   \<and> [''locationid=A/year=2024/month=01/*''] =
       concat (map (\<lambda>location_id.
             map (\<lambda>d. ''locationid='' @ location_id @ ''/year='' @ str_nat (year d)
                        @ ''/month='' @ zfill 2 (str_nat (month d)) @ ''/*'')
                 (months_between \<lparr>year = 2024, month = 1\<rparr> \<lparr>year = 2024, month = 1\<rparr>))
             [''A''])
   \<and> compile_data_file_query (jinja2 (\<lambda>source bindings. Inl TemplateError)) ''s3://bucket''
         ''locationid=A/year=2024/month=01/*'' ''{{data_file_path}}'' =
       Inr ''s3://bucket/locationid=A/year=2024/month=01/*''"
  using data_file_paths_convention
    [OF strptime_ym_2024_01 strptime_ym_2024_01 compile_one_partition,
     of "\<lambda>source bindings. Inl TemplateError" "''s3://bucket''"
        "''locationid=A/year=2024/month=01/*''"]
    strptime_ym_2024_01 compile_one_partition [of "\<lambda>source bindings. Inl TemplateError"]
  by simp

theorem data_file_paths_entityid_counterexample:
  "compile_data_file_paths (jinja2 (\<lambda>source bindings. Inl TemplateError))
     data_file_path_template [''A''] ''2024-01'' ''2024-01'' =
     Inr [''locationid=A/year=2024/month=01/*'']
   \<and> ''locationid=A/year=2024/month=01/*'' \<noteq> ''entityid=A/year=2024/month=01/*''"
  by (simp add: compile_one_partition)

section \<open>The query catalogue\<close>

lemma file_in_Nil [simp]: "\<not> file_in root [] name p"
  by (auto elim: file_in.cases)

lemma file_in_File [simp]:
  "file_in root (File m # es) name p \<longleftrightarrow>
     (name = m \<and> p = path_join root m) \<or> file_in root es name p"
  unfolding file_in.simps [of root "File m # es"] file_in.simps [of root es] by auto

lemma file_in_Dir [simp]:
  "file_in root (Dir d children # es) name p \<longleftrightarrow>
     file_in (path_join root d) children name p \<or> file_in root es name p"
  unfolding file_in.simps [of root "Dir d children # es"] file_in.simps [of root es] by auto

lemma sql_files_of_append [simp]:
  "sql_files_of (xs @ ys) = sql_files_of xs @ sql_files_of ys"
  by (simp add: sql_files_of_def)

lemma sql_files_of_Nil [simp]: "sql_files_of [] = []"
  by (simp add: sql_files_of_def)

lemma sql_files_of_Cons [simp]:
  "sql_files_of ((root, files) # xs) =
     map (path_join root) (filter (\<lambda>file. endswith file ''.sql'') files) @ sql_files_of xs"
  by (simp add: sql_files_of_def)

lemma walk_files_Nil [simp]: "sql_files_of (walk root []) = []"
  by simp

lemma mset_walk_File:
  "mset (sql_files_of (walk root (File name # es))) =
     (if endswith name ''.sql'' then {#path_join root name#} else {#}) +
     mset (sql_files_of (walk root es))"
  by simp

lemma mset_walk_Dir:
  "mset (sql_files_of (walk root (Dir d children # es))) =
     mset (sql_files_of (walk (path_join root d) children)) +
     mset (sql_files_of (walk root es))"
  by simp

lemmas mset_walk = mset_walk_File mset_walk_Dir

lemma set_walk_files:
  "set (sql_files_of (walk root es)) =
     {p. \<exists>name. file_in root es name p \<and> endswith name ''.sql''}"
proof (induction es arbitrary: root rule: count_sql.induct)
  case 1
  show ?case by simp
next
  case (2 name es)
  show ?case
    using mset_walk_File [of root name es, THEN arg_cong, of set_mset] "2.IH" [of root]
    by (auto simp del: walk.simps)
next
  case (3 name children es)
  show ?case
    using mset_walk_Dir [of root name children es, THEN arg_cong, of set_mset]
      "3.IH"(1) [of "path_join root name"] "3.IH"(2) [of root]
    by (auto simp del: walk.simps)
qed

lemma length_walk_files: "length (sql_files_of (walk root es)) = count_sql es"
proof (induction es arbitrary: root rule: count_sql.induct)
  case 1
  show ?case by simp
next
  case (2 name es)
  show ?case
    using mset_walk_File [of root name es, THEN arg_cong, of size] "2.IH" [of root]
    by (simp del: walk.simps)
next
  case (3 name children es)
  show ?case
    using mset_walk_Dir [of root name children es, THEN arg_cong, of size]
      "3.IH"(1) [of "path_join root name"] "3.IH"(2) [of root]
    by (simp del: walk.simps)
qed

lemma reordered_mset:
  "reordered es es' \<Longrightarrow>
   mset (sql_files_of (walk root es)) = mset (sql_files_of (walk root es'))"
proof (induction arbitrary: root rule: reordered.induct)
  case (same es)
  show ?case by simp
next
  case (swap a b es)
  show ?case by (cases a; cases b) (simp_all add: mset_walk del: walk.simps)
next
  case (tail es es' e)
  then show ?case by (cases e) (simp_all add: mset_walk del: walk.simps)
next
  case (inside children children' d es)
  then show ?case by (simp add: mset_walk del: walk.simps)
next
  case (chain es es' es'')
  then show ?case by simp
qed

text \<open>Every permutation of the entries of a directory is a reordering.\<close>

lemma reordered_sym: "reordered es es' \<Longrightarrow> reordered es' es"
  by (induction rule: reordered.induct) (auto intro: reordered.intros)

lemma reordered_to_front: "reordered (ys @ x # zs) (x # ys @ zs)"
proof (induction ys)
  case Nil
  show ?case by (simp add: reordered.same)
next
  case (Cons y ys)
  have "reordered (y # ys @ x # zs) (y # x # ys @ zs)"
    using Cons by (rule reordered.tail)
  moreover have "reordered (y # x # ys @ zs) (x # y # ys @ zs)"
    by (rule reordered.swap)
  ultimately show ?case
    by (auto intro: reordered.chain)
qed

lemma reordered_permutation: "mset es = mset es' \<Longrightarrow> reordered es es'"
proof (induction es arbitrary: es')
  case Nil
  then show ?case by (simp add: reordered.same)
next
  case (Cons x xs)
  then have "x \<in> set es'"
    by (metis list.set_intros(1) mset_eq_setD)
  then obtain ys zs where es': "es' = ys @ x # zs"
    by (auto simp: in_set_conv_decomp)
  with Cons.prems have "mset xs = mset (ys @ zs)" by simp
  then have "reordered xs (ys @ zs)" by (rule Cons.IH)
  then have "reordered (x # xs) (x # ys @ zs)" by (rule reordered.tail)
  moreover have "reordered (x # ys @ zs) (ys @ x # zs)"
    using reordered_to_front by (rule reordered_sym)
  ultimately show ?case
    unfolding es' by (rule reordered.chain)
qed

lemma sort_mset_cong: "mset xs = mset ys \<Longrightarrow> sort xs = sort (ys :: string list)"
  by (rule properties_for_sort) simp_all

lemma collect_query_paths_length:
  "listdir ev parent_dir = Some es \<Longrightarrow>
   length (fst (collect_query_paths ev parent_dir w)) = count_sql es"
  by (simp add: collect_query_paths_def Let_def os_walk_def length_walk_files del: walk.simps)

text \<open>
  C4. Whatever the directory tree, \<^verbatim>\<open>collect_query_paths\<close> returns a list sorted in
  ascending lexicographic order of the full paths; its elements are exactly the full paths
  of the files, at any depth, whose name ends in \<^verbatim>\<open>.sql\<close>, each file once; and two
  trees that differ only in the order in which the directories list their entries give
  the same list.
\<close>

theorem collect_query_paths_sorted_exact:
  "sorted (fst (collect_query_paths ev parent_dir w))
   \<and> (listdir ev parent_dir = Some es \<longrightarrow>
        set (fst (collect_query_paths ev parent_dir w)) =
          {p. \<exists>name. file_in parent_dir es name p \<and> endswith name ''.sql''}
        \<and> length (fst (collect_query_paths ev parent_dir w)) = count_sql es)
   \<and> (listdir ev parent_dir = Some es \<and> listdir ev' parent_dir = Some es' \<and> reordered es es'
        \<longrightarrow> fst (collect_query_paths ev parent_dir w) =
            fst (collect_query_paths ev' parent_dir w'))"
proof (intro conjI impI)
  show "sorted (fst (collect_query_paths ev parent_dir w))"
    by (simp add: collect_query_paths_def Let_def)
next
  assume "listdir ev parent_dir = Some es"
  then show "set (fst (collect_query_paths ev parent_dir w)) =
               {p. \<exists>name. file_in parent_dir es name p \<and> endswith name ''.sql''}"
    by (simp add: collect_query_paths_def Let_def os_walk_def set_walk_files
        del: walk.simps)
next
  assume "listdir ev parent_dir = Some es"
  then show "length (fst (collect_query_paths ev parent_dir w)) = count_sql es"
    by (simp add: collect_query_paths_def Let_def os_walk_def length_walk_files
        del: walk.simps)
next
  assume a: "listdir ev parent_dir = Some es \<and> listdir ev' parent_dir = Some es'
             \<and> reordered es es'"
  then have "reordered es es'" by simp
  then have "mset (sql_files_of (walk parent_dir es)) = mset (sql_files_of (walk parent_dir es'))"
    by (rule reordered_mset)
  then have "sort (sql_files_of (walk parent_dir es)) = sort (sql_files_of (walk parent_dir es'))"
    by (rule sort_mset_cong)
  with a show "fst (collect_query_paths ev parent_dir w) =
               fst (collect_query_paths ev' parent_dir w')"
    by (simp add: collect_query_paths_def Let_def os_walk_def del: walk.simps)
qed

lemma collect_tree1:
  "fst (collect_query_paths (tree_env tree1) ''sql'' fresh) =
     [''sql/a.sql'', ''sql/b.sql'', ''sql/sub/c.sql'']"
  by (simp add: collect_query_paths_def Let_def os_walk_def tree_env_def tree1_def
      path_join_def endswith_def)

theorem collect_query_paths_sorted_exact_witness:
  "listdir (tree_env tree1) ''sql'' = Some tree1
   \<and> listdir (tree_env tree2) ''sql'' = Some tree2
   \<and> reordered tree1 tree2
   \<and> fst (collect_query_paths (tree_env tree1) ''sql'' fresh) =
       [''sql/a.sql'', ''sql/b.sql'', ''sql/sub/c.sql'']
   \<and> fst (collect_query_paths (tree_env tree2) ''sql'' fresh) =
       [''sql/a.sql'', ''sql/b.sql'', ''sql/sub/c.sql'']
   \<and> sorted [''sql/a.sql'', ''sql/b.sql'', ''sql/sub/c.sql'']
   \<and> count_sql tree1 = 3"
proof -
  have l: "listdir (tree_env tree1) ''sql'' = Some tree1"
    "listdir (tree_env tree2) ''sql'' = Some tree2"
    by (simp_all add: tree_env_def)
  have r: "reordered tree1 tree2"
    unfolding tree1_def tree2_def by (rule reordered.swap)
  note inst = collect_query_paths_sorted_exact
      [of "tree_env tree1" "''sql''" fresh tree1 "tree_env tree2" tree2 fresh]
  from inst l r have same: "fst (collect_query_paths (tree_env tree2) ''sql'' fresh) =
      fst (collect_query_paths (tree_env tree1) ''sql'' fresh)"
    by simp
  from inst l have n: "count_sql tree1 = length (fst (collect_query_paths (tree_env tree1) ''sql'' fresh))"
    by simp
  from inst have "sorted (fst (collect_query_paths (tree_env tree1) ''sql'' fresh))"
    by (rule conjunct1)
  then have "sorted [''sql/a.sql'', ''sql/b.sql'', ''sql/sub/c.sql'']"
    by (simp only: collect_tree1)
  then show ?thesis
    using l r by (simp only: same n collect_tree1) simp
qed

section \<open>Running work lists\<close>

subsection \<open>The two loops\<close>

lemma run_query_files_all_ok:
  assumes "length qs = length ps"
    and "\<forall>i<length ps. file_text ev (ps ! i) = Some (qs ! i)
                       \<and> driver ev (submitted w @ take i qs) (qs ! i) = None"
  shows "run_query_files ev ps w =
           (None, w\<lparr>logged := logged w @ map Executed ps, submitted := submitted w @ qs\<rparr>)"
  using assms
proof (induction ps arbitrary: qs w)
  case Nil
  then show ?case by simp
next
  case (Cons p ps)
  then obtain q qs' where qs: "qs = q # qs'" by (cases qs) auto
  let ?w = "logging (Executed p) (w\<lparr>submitted := submitted w @ [q]\<rparr>)"
  from Cons.prems(2) [rule_format, of 0] qs
  have h0: "file_text ev p = Some q" "driver ev (submitted w) q = None" by simp_all
  have tl: "\<forall>i<length ps. file_text ev (ps ! i) = Some (qs' ! i)
                        \<and> driver ev (submitted ?w @ take i qs') (qs' ! i) = None"
  proof (intro allI impI)
    fix i assume "i < length ps"
    then show "file_text ev (ps ! i) = Some (qs' ! i)
               \<and> driver ev (submitted ?w @ take i qs') (qs' ! i) = None"
      using Cons.prems(2) [rule_format, of "Suc i"] qs by (simp add: logging_def)
  qed
  have len: "length qs' = length ps" using Cons.prems(1) qs by simp
  show ?case
    using Cons.IH [OF len tl] h0 qs
    by (simp add: read_query_def execute_query_def logging_def)
qed

lemma run_query_files_abort:
  assumes "k < length ps" "k < length qs"
    and "\<forall>i\<le>k. file_text ev (ps ! i) = Some (qs ! i)"
    and "\<forall>i<k. driver ev (submitted w @ take i qs) (qs ! i) = None"
    and "driver ev (submitted w @ take k qs) (qs ! k) = Some e"
  shows "run_query_files ev ps w =
           (Some e, w\<lparr>logged := logged w @ map Executed (take k ps),
                       submitted := submitted w @ take (Suc k) qs\<rparr>)"
  using assms
proof (induction ps arbitrary: k qs w)
  case Nil
  then show ?case by simp
next
  case (Cons p ps)
  then obtain q qs' where qs: "qs = q # qs'" by (cases qs) auto
  from Cons.prems(3) [rule_format, of 0] qs have h0: "file_text ev p = Some q" by simp
  show ?case
  proof (cases k)
    case 0
    with Cons.prems(5) qs h0 show ?thesis
      by (simp add: read_query_def execute_query_def)
  next
    case (Suc j)
    let ?w = "logging (Executed p) (w\<lparr>submitted := submitted w @ [q]\<rparr>)"
    from Cons.prems(4) [rule_format, of 0] Suc qs
    have d0: "driver ev (submitted w) q = None" by simp
    have a: "j < length ps" "j < length qs'" using Cons.prems(1,2) Suc qs by simp_all
    have b: "\<forall>i\<le>j. file_text ev (ps ! i) = Some (qs' ! i)"
      using Cons.prems(3) Suc qs by (auto dest: spec [of _ "Suc i" for i])
    have c: "\<forall>i<j. driver ev (submitted ?w @ take i qs') (qs' ! i) = None"
    proof (intro allI impI)
      fix i assume "i < j"
      then show "driver ev (submitted ?w @ take i qs') (qs' ! i) = None"
        using Cons.prems(4) [rule_format, of "Suc i"] Suc qs by (simp add: logging_def)
    qed
    have d: "driver ev (submitted ?w @ take j qs') (qs' ! j) = Some e"
      using Cons.prems(5) Suc qs by (simp add: logging_def)
    show ?thesis
      using Cons.IH [OF a b c d] h0 d0 qs Suc
      by (simp add: read_query_def execute_query_def logging_def)
  qed
qed

lemma extract_loop_all_ok:
  assumes "length qs = length ps"
    and "\<forall>i<length ps.
           compile_data_file_query (jinja2 (beyond ev)) base (ps ! i) tmpl = Inr (qs ! i)
           \<and> driver ev (submitted w @ take i qs) (qs ! i) = None"
  shows "extract_loop ev base tmpl ps w =
           (None, w\<lparr>logged := logged w @ concat (map (\<lambda>p. [Extracting p, Extracted p]) ps),
                    submitted := submitted w @ qs\<rparr>)"
  using assms
proof (induction ps arbitrary: qs w)
  case Nil
  then show ?case by simp
next
  case (Cons p ps)
  then obtain q qs' where qs: "qs = q # qs'" by (cases qs) auto
  let ?w = "logging (Extracted p) ((logging (Extracting p) w)\<lparr>submitted := submitted w @ [q]\<rparr>)"
  from Cons.prems(2) [rule_format, of 0] qs
  have h0: "compile_data_file_query (jinja2 (beyond ev)) base p tmpl = Inr q"
    "driver ev (submitted w) q = None" by simp_all
  have tl: "\<forall>i<length ps.
              compile_data_file_query (jinja2 (beyond ev)) base (ps ! i) tmpl = Inr (qs' ! i)
              \<and> driver ev (submitted ?w @ take i qs') (qs' ! i) = None"
  proof (intro allI impI)
    fix i assume "i < length ps"
    then show "compile_data_file_query (jinja2 (beyond ev)) base (ps ! i) tmpl = Inr (qs' ! i)
               \<and> driver ev (submitted ?w @ take i qs') (qs' ! i) = None"
      using Cons.prems(2) [rule_format, of "Suc i"] qs by (simp add: logging_def)
  qed
  have len: "length qs' = length ps" using Cons.prems(1) qs by simp
  show ?case
    using Cons.IH [OF len tl] h0 qs
    by (simp add: execute_query_def logging_def Let_def)
qed

lemma extract_loop_skip:
  assumes "length qs = length ps" "k < length ps"
    and "\<forall>i<length ps.
           compile_data_file_query (jinja2 (beyond ev)) base (ps ! i) tmpl = Inr (qs ! i)
           \<and> driver ev (submitted w @ take i qs) (qs ! i) =
               (if i = k then Some (IOException msg) else None)"
  shows "extract_loop ev base tmpl ps w =
           (None, w\<lparr>logged := logged w
                       @ concat (map (\<lambda>p. [Extracting p, Extracted p]) (take k ps))
                       @ [Extracting (ps ! k), CouldNotFind (ps ! k) msg]
                       @ concat (map (\<lambda>p. [Extracting p, Extracted p]) (drop (Suc k) ps)),
                    submitted := submitted w @ qs\<rparr>)"
  using assms
proof (induction ps arbitrary: qs k w)
  case Nil
  then show ?case by simp
next
  case (Cons p ps)
  then obtain q qs' where qs: "qs = q # qs'" by (cases qs) auto
  have len: "length qs' = length ps" using Cons.prems(1) qs by simp
  from Cons.prems(3) [rule_format, of 0] qs
  have c0: "compile_data_file_query (jinja2 (beyond ev)) base p tmpl = Inr q" by simp
  show ?case
  proof (cases k)
    case 0
    let ?w = "logging (CouldNotFind p msg)
                ((logging (Extracting p) w)\<lparr>submitted := submitted w @ [q]\<rparr>)"
    from Cons.prems(3) [rule_format, of 0] 0 qs
    have d0: "driver ev (submitted w) q = Some (IOException msg)" by simp
    have tl: "\<forall>i<length ps.
                compile_data_file_query (jinja2 (beyond ev)) base (ps ! i) tmpl = Inr (qs' ! i)
                \<and> driver ev (submitted ?w @ take i qs') (qs' ! i) = None"
    proof (intro allI impI)
      fix i assume "i < length ps"
      then show "compile_data_file_query (jinja2 (beyond ev)) base (ps ! i) tmpl = Inr (qs' ! i)
                 \<and> driver ev (submitted ?w @ take i qs') (qs' ! i) = None"
        using Cons.prems(3) [rule_format, of "Suc i"] 0 qs by (simp add: logging_def)
    qed
    show ?thesis
      using extract_loop_all_ok [OF len tl] c0 d0 0 qs
      by (simp add: execute_query_def logging_def Let_def)
  next
    case (Suc j)
    let ?w = "logging (Extracted p)
                ((logging (Extracting p) w)\<lparr>submitted := submitted w @ [q]\<rparr>)"
    from Cons.prems(3) [rule_format, of 0] Suc qs
    have d0: "driver ev (submitted w) q = None" by simp
    have j: "j < length ps" using Cons.prems(2) Suc by simp
    have tl: "\<forall>i<length ps.
                compile_data_file_query (jinja2 (beyond ev)) base (ps ! i) tmpl = Inr (qs' ! i)
                \<and> driver ev (submitted ?w @ take i qs') (qs' ! i) =
                    (if i = j then Some (IOException msg) else None)"
    proof (intro allI impI)
      fix i assume "i < length ps"
      then show "compile_data_file_query (jinja2 (beyond ev)) base (ps ! i) tmpl = Inr (qs' ! i)
                 \<and> driver ev (submitted ?w @ take i qs') (qs' ! i) =
                     (if i = j then Some (IOException msg) else None)"
        using Cons.prems(3) [rule_format, of "Suc i"] Suc qs by (simp add: logging_def)
    qed
    show ?thesis
      using Cons.IH [OF len j tl] c0 d0 Suc qs
      by (simp add: execute_query_def logging_def Let_def)
  qed
qed

lemma extract_loop_step:
  assumes "compile_data_file_query (jinja2 (beyond ev)) base p tmpl = Inr q"
    and "tolerated (driver ev (submitted w) q)"
  shows "\<exists>w'. extract_loop ev base tmpl (p # ps) w = extract_loop ev base tmpl ps w'
              \<and> submitted w' = submitted w @ [q]
              \<and> opened w' = opened w \<and> closed w' = closed w"
proof -
  define w1 where "w1 = (logging (Extracting p) w)\<lparr>submitted := submitted w @ [q]\<rparr>"
  have "\<exists>r. extract_loop ev base tmpl (p # ps) w = extract_loop ev base tmpl ps (logging r w1)"
  proof (cases "driver ev (submitted w) q")
    case None
    then show ?thesis
      using assms(1) by (auto simp: execute_query_def logging_def Let_def w1_def)
  next
    case (Some x)
    with assms(2) obtain m where "x = IOException m" by (cases x) auto
    with Some show ?thesis
      using assms(1) by (auto simp: execute_query_def logging_def Let_def w1_def)
  qed
  then obtain r where "extract_loop ev base tmpl (p # ps) w =
                         extract_loop ev base tmpl ps (logging r w1)" by blast
  moreover have "submitted (logging r w1) = submitted w @ [q]"
    "opened (logging r w1) = opened w" "closed (logging r w1) = closed w"
    by (simp_all add: logging_def w1_def)
  ultimately show ?thesis by blast
qed

lemma extract_loop_abort:
  assumes "k < length ps" "k < length qs"
    and "\<forall>i\<le>k. compile_data_file_query (jinja2 (beyond ev)) base (ps ! i) tmpl = Inr (qs ! i)"
    and "\<forall>i<k. tolerated (driver ev (submitted w @ take i qs) (qs ! i))"
    and "driver ev (submitted w @ take k qs) (qs ! k) = Some e"
    and "\<not> is_IOException e"
  shows "fst (extract_loop ev base tmpl ps w) = Some e
         \<and> submitted (snd (extract_loop ev base tmpl ps w)) =
             submitted w @ take (Suc k) qs
         \<and> opened (snd (extract_loop ev base tmpl ps w)) = opened w
         \<and> closed (snd (extract_loop ev base tmpl ps w)) = closed w"
  using assms(1-5)
proof (induction ps arbitrary: k qs w)
  case Nil
  then show ?case by simp
next
  case (Cons p ps)
  then obtain q qs' where qs: "qs = q # qs'" by (cases qs) auto
  from Cons.prems(3) [rule_format, of 0] qs
  have c0: "compile_data_file_query (jinja2 (beyond ev)) base p tmpl = Inr q" by simp
  show ?case
  proof (cases k)
    case 0
    with Cons.prems(5) c0 assms(6) qs show ?thesis
      by (cases e) (simp_all add: execute_query_def logging_def Let_def)
  next
    case (Suc j)
    have j: "j < length ps" "j < length qs'" using Cons.prems(1,2) Suc qs by simp_all
    from Cons.prems(4) [rule_format, of 0] Suc qs
    have t0: "tolerated (driver ev (submitted w) q)" by simp
    from extract_loop_step [OF c0 t0, of ps]
    obtain w' where r: "extract_loop ev base tmpl (p # ps) w = extract_loop ev base tmpl ps w'"
      and sub: "submitted w' = submitted w @ [q]"
      and fr: "opened w' = opened w" "closed w' = closed w"
      by blast
    have a: "\<forall>i\<le>j. compile_data_file_query (jinja2 (beyond ev)) base (ps ! i) tmpl =
                     Inr (qs' ! i)"
    proof (intro allI impI)
      fix i assume "i \<le> j"
      then show "compile_data_file_query (jinja2 (beyond ev)) base (ps ! i) tmpl = Inr (qs' ! i)"
        using Cons.prems(3) [rule_format, of "Suc i"] Suc qs by simp
    qed
    have b: "\<forall>i<j. tolerated (driver ev (submitted w' @ take i qs') (qs' ! i))"
    proof (intro allI impI)
      fix i assume "i < j"
      then show "tolerated (driver ev (submitted w' @ take i qs') (qs' ! i))"
        using Cons.prems(4) [rule_format, of "Suc i"] Suc qs by (simp add: sub)
    qed
    have c: "driver ev (submitted w' @ take j qs') (qs' ! j) = Some e"
      using Cons.prems(5) Suc qs by (simp add: sub)
    show ?thesis
      unfolding r using Cons.IH [OF j a b c] Suc qs
      by (simp only: sub fr) simp
  qed
qed

lemma extract_loop_render_abort:
  assumes "k < length ps" "k \<le> length qs"
    and "\<forall>i<k. compile_data_file_query (jinja2 (beyond ev)) base (ps ! i) tmpl = Inr (qs ! i)"
    and "\<forall>i<k. tolerated (driver ev (submitted w @ take i qs) (qs ! i))"
    and "compile_data_file_query (jinja2 (beyond ev)) base (ps ! k) tmpl = Inl e"
  shows "fst (extract_loop ev base tmpl ps w) = Some e
         \<and> submitted (snd (extract_loop ev base tmpl ps w)) = submitted w @ take k qs
         \<and> opened (snd (extract_loop ev base tmpl ps w)) = opened w
         \<and> closed (snd (extract_loop ev base tmpl ps w)) = closed w"
  using assms
proof (induction ps arbitrary: k qs w)
  case Nil
  then show ?case by simp
next
  case (Cons p ps)
  show ?case
  proof (cases k)
    case 0
    with Cons.prems(5) show ?thesis
      by (simp add: logging_def Let_def)
  next
    case (Suc j)
    with Cons.prems(2) obtain q qs' where qs: "qs = q # qs'" by (cases qs) auto
    from Cons.prems(3) [rule_format, of 0] Suc qs
    have c0: "compile_data_file_query (jinja2 (beyond ev)) base p tmpl = Inr q" by simp
    have j: "j < length ps" "j \<le> length qs'" using Cons.prems(1,2) Suc qs by simp_all
    from Cons.prems(4) [rule_format, of 0] Suc qs
    have t0: "tolerated (driver ev (submitted w) q)" by simp
    from extract_loop_step [OF c0 t0, of ps]
    obtain w' where r: "extract_loop ev base tmpl (p # ps) w = extract_loop ev base tmpl ps w'"
      and sub: "submitted w' = submitted w @ [q]"
      and fr: "opened w' = opened w" "closed w' = closed w"
      by blast
    have a: "\<forall>i<j. compile_data_file_query (jinja2 (beyond ev)) base (ps ! i) tmpl =
                     Inr (qs' ! i)"
    proof (intro allI impI)
      fix i assume "i < j"
      then show "compile_data_file_query (jinja2 (beyond ev)) base (ps ! i) tmpl = Inr (qs' ! i)"
        using Cons.prems(3) [rule_format, of "Suc i"] Suc qs by simp
    qed
    have b: "\<forall>i<j. tolerated (driver ev (submitted w' @ take i qs') (qs' ! i))"
    proof (intro allI impI)
      fix i assume "i < j"
      then show "tolerated (driver ev (submitted w' @ take i qs') (qs' ! i))"
        using Cons.prems(4) [rule_format, of "Suc i"] Suc qs by (simp add: sub)
    qed
    have c: "compile_data_file_query (jinja2 (beyond ev)) base (ps ! j) tmpl = Inl e"
      using Cons.prems(5) Suc by simp
    show ?thesis
      unfolding r using Cons.IH [OF j a b c] Suc qs
      by (simp only: sub fr) simp
  qed
qed
subsection \<open>What a run leaves behind\<close>

lemma collect_at:
  "fst (collect_query_paths ev d w) = ps \<Longrightarrow>
   collect_query_paths ev d w' = (ps, logging (Found (length ps) d) w')"
  by (auto simp: collect_query_paths_def Let_def)

lemma run_query_files_frame:
  "run_query_files ev ps w = (r, w') \<Longrightarrow> opened w' = opened w \<and> closed w' = closed w"
proof (induction ps arbitrary: w)
  case Nil
  then show ?case by simp
next
  case (Cons p ps)
  show ?case
  proof (cases "read_query ev p")
    case (Inl e)
    with Cons.prems show ?thesis by simp
  next
    case (Inr q)
    show ?thesis
    proof (cases "driver ev (submitted w) q")
      case None
      with Inr Cons.prems
      have "run_query_files ev ps (logging (Executed p) (w\<lparr>submitted := submitted w @ [q]\<rparr>))
              = (r, w')"
        by (simp add: execute_query_def)
      from Cons.IH [OF this] show ?thesis by (simp add: logging_def)
    next
      case (Some e)
      with Inr Cons.prems show ?thesis by (auto simp: execute_query_def)
    qed
  qed
qed

lemma extract_loop_frame:
  "extract_loop ev base tmpl ps w = (r, w') \<Longrightarrow> opened w' = opened w \<and> closed w' = closed w"
proof (induction ps arbitrary: w)
  case Nil
  then show ?case by simp
next
  case (Cons p ps)
  let ?w1 = "logging (Extracting p) w"
  show ?case
  proof (cases "compile_data_file_query (jinja2 (beyond ev)) base p tmpl")
    case (Inl e)
    with Cons.prems show ?thesis by (auto simp: Let_def logging_def)
  next
    case (Inr q)
    let ?w2 = "?w1\<lparr>submitted := submitted ?w1 @ [q]\<rparr>"
    show ?thesis
    proof (cases "driver ev (submitted ?w1) q")
      case None
      with Inr Cons.prems
      have "extract_loop ev base tmpl ps (logging (Extracted p) ?w2) = (r, w')"
        by (simp add: execute_query_def Let_def)
      from Cons.IH [OF this] show ?thesis by (simp add: logging_def)
    next
      case (Some e)
      show ?thesis
      proof (cases "is_IOException e")
        case True
        then obtain m where m: "e = IOException m" by (cases e) auto
        with Some Inr Cons.prems
        have "extract_loop ev base tmpl ps (logging (CouldNotFind p m) ?w2) = (r, w')"
          by (simp add: execute_query_def Let_def)
        from Cons.IH [OF this] show ?thesis by (simp add: logging_def)
      next
        case False
        with Some Inr Cons.prems show ?thesis
          by (cases e) (auto simp: execute_query_def Let_def logging_def)
      qed
    qed
  qed
qed

subsection \<open>Fail-fast runs\<close>

lemma collect_with_driver [simp]:
  "collect_query_paths (with_driver ev d) dir w = collect_query_paths ev dir w"
  by (simp add: collect_query_paths_def os_walk_def with_driver_def)

text \<open>
  C3 (amended). In a schema-setup or transformation run whose work list has an item
  \<open>k\<close> at which the database raises an error, all earlier items having succeeded, the
  run ends at once and its result is that error, exactly as the database raised it; the
  queries submitted are those of the items up to \<open>k\<close>, in order, and none after it; and
  the log is exactly the connection and discovery records followed by one
  \<^verbatim>\<open>Executed query from\<close> record for each item before \<open>k\<close>, in order. Neither run
  function adds anything to the error or to the log when a query fails.
\<close>

theorem fail_fast_abort:
  assumes "connect_error ev db = None"
    and "fst (collect_query_paths ev dir w) = ps"
    and "k < length ps" and "k < length qs"
    and "\<forall>i\<le>k. file_text ev (ps ! i) = Some (qs ! i)"
    and "\<forall>i<k. driver ev (submitted w @ take i qs) (qs ! i) = None"
    and "driver ev (submitted w @ take k qs) (qs ! k) = Some e"
  shows "transform_data ev \<lparr>t_database_path = db, query_directory = dir\<rparr> w =
           (Some e,
            w\<lparr>logged := logged w @ [Connecting db, Found (length ps) dir]
                            @ map Executed (take k ps),
              opened := opened w + 1,
              submitted := submitted w @ take (Suc k) qs\<rparr>)
         \<and> setup_database ev db dir w =
           (Some e,
            w\<lparr>logged := logged w @ [Found (length ps) dir, Connecting db]
                            @ map Executed (take k ps),
              opened := opened w + 1,
              submitted := submitted w @ take (Suc k) qs\<rparr>)"
proof
  define w1 where "w1 = w\<lparr>logged := logged w @ [Connecting db], opened := opened w + 1\<rparr>"
  define w2 where "w2 = w\<lparr>logged := logged w @ [Connecting db, Found (length ps) dir],
                          opened := opened w + 1\<rparr>"
  have c: "connect_to_database ev db w = (None, w1)"
    using assms(1) by (simp add: connect_to_database_def logging_def Let_def w1_def)
  have q: "collect_query_paths ev dir w1 = (ps, w2)"
    using collect_at [OF assms(2), of w1] by (simp add: logging_def w1_def w2_def)
  have s: "submitted w2 = submitted w" by (simp add: w2_def)
  have "run_query_files ev ps w2 =
          (Some e, w2\<lparr>logged := logged w2 @ map Executed (take k ps),
                      submitted := submitted w2 @ take (Suc k) qs\<rparr>)"
    using assms(3-7) by (intro run_query_files_abort) (simp_all only: s)
  then show "transform_data ev \<lparr>t_database_path = db, query_directory = dir\<rparr> w =
           (Some e,
            w\<lparr>logged := logged w @ [Connecting db, Found (length ps) dir]
                            @ map Executed (take k ps),
              opened := opened w + 1,
              submitted := submitted w @ take (Suc k) qs\<rparr>)"
    by (simp add: transform_data_def c q) (simp add: w2_def)
next
  define w1 where "w1 = w\<lparr>logged := logged w @ [Found (length ps) dir]\<rparr>"
  define w2 where "w2 = w\<lparr>logged := logged w @ [Found (length ps) dir, Connecting db],
                          opened := opened w + 1\<rparr>"
  have q: "collect_query_paths ev dir w = (ps, w1)"
    using collect_at [OF assms(2), of w] by (simp add: logging_def w1_def)
  have c: "connect_to_database ev db w1 = (None, w2)"
    using assms(1) by (simp add: connect_to_database_def logging_def Let_def w1_def w2_def)
  have s: "submitted w2 = submitted w" by (simp add: w2_def)
  have "run_query_files ev ps w2 =
          (Some e, w2\<lparr>logged := logged w2 @ map Executed (take k ps),
                      submitted := submitted w2 @ take (Suc k) qs\<rparr>)"
    using assms(3-7) by (intro run_query_files_abort) (simp_all only: s)
  then show "setup_database ev db dir w =
           (Some e,
            w\<lparr>logged := logged w @ [Found (length ps) dir, Connecting db]
                            @ map Executed (take k ps),
              opened := opened w + 1,
              submitted := submitted w @ take (Suc k) qs\<rparr>)"
    by (simp add: setup_database_def c q) (simp add: w2_def)
qed

theorem fail_fast_abort_witness:
  "connect_error (with_driver (tree_env tree1) second_fails) ''air_quality.db'' = None
   \<and> fst (collect_query_paths (with_driver (tree_env tree1) second_fails) ''sql'' fresh) =
       [''sql/a.sql'', ''sql/b.sql'', ''sql/sub/c.sql'']
   \<and> driver (with_driver (tree_env tree1) second_fails) [] ''CREATE TABLE t (x INT)'' = None
   \<and> driver (with_driver (tree_env tree1) second_fails) [''CREATE TABLE t (x INT)'']
        ''CREATE TABLE t (x INT)'' = Some (DriverError ''Catalog Error'')
   \<and> transform_data (with_driver (tree_env tree1) second_fails) transform_example fresh =
       (Some (DriverError ''Catalog Error''),
        \<lparr>logged = [Connecting ''air_quality.db'', Found 3 ''sql'', Executed ''sql/a.sql''],
         opened = 1, closed = 0,
         submitted = [''CREATE TABLE t (x INT)'', ''CREATE TABLE t (x INT)'']\<rparr>)
   \<and> setup_database (with_driver (tree_env tree1) second_fails) ''air_quality.db'' ''sql'' fresh =
       (Some (DriverError ''Catalog Error''),
        \<lparr>logged = [Found 3 ''sql'', Connecting ''air_quality.db'', Executed ''sql/a.sql''],
         opened = 1, closed = 0,
         submitted = [''CREATE TABLE t (x INT)'', ''CREATE TABLE t (x INT)'']\<rparr>)"
proof -
  let ?ev = "with_driver (tree_env tree1) second_fails"
  let ?q = "''CREATE TABLE t (x INT)''"
  have a1: "connect_error ?ev ''air_quality.db'' = None"
    by (simp add: with_driver_def tree_env_def)
  have a2: "fst (collect_query_paths ?ev ''sql'' fresh) =
              [''sql/a.sql'', ''sql/b.sql'', ''sql/sub/c.sql'']"
    by (simp add: collect_tree1)
  have a3: "1 < length [''sql/a.sql'', ''sql/b.sql'', ''sql/sub/c.sql'']" by simp
  have a4: "1 < length [?q, ?q, ?q]" by simp
  have a5: "\<forall>i\<le>1. file_text ?ev ([''sql/a.sql'', ''sql/b.sql'', ''sql/sub/c.sql''] ! i) =
                    Some ([?q, ?q, ?q] ! i)"
  proof (intro allI impI)
    fix i :: nat assume "i \<le> 1"
    then consider "i = 0" | "i = 1" by arith
    then show "file_text ?ev ([''sql/a.sql'', ''sql/b.sql'', ''sql/sub/c.sql''] ! i) =
                 Some ([?q, ?q, ?q] ! i)"
      by cases (simp_all add: with_driver_def tree_env_def)
  qed
  have d0: "driver ?ev [] ?q = None"
    by (simp add: with_driver_def second_fails_def)
  have d1: "driver ?ev [?q] ?q = Some (DriverError ''Catalog Error'')"
    by (simp add: with_driver_def second_fails_def)
  have a6: "\<forall>i<1. driver ?ev (submitted fresh @ take i [?q, ?q, ?q]) ([?q, ?q, ?q] ! i) = None"
    using d0 by (simp add: fresh_def)
  have a7: "driver ?ev (submitted fresh @ take 1 [?q, ?q, ?q]) ([?q, ?q, ?q] ! 1) =
              Some (DriverError ''Catalog Error'')"
    using d1 by (simp add: fresh_def)
  show ?thesis
    using fail_fast_abort [OF a1 a2 a3 a4 a5 a6 a7] a1 a2 d0 d1
    by (simp add: transform_example_def fresh_def)
qed

lemma failing_transform_a:
  "transform_data (with_driver (tree_env [File ''a.sql'']) always_fails) transform_example fresh =
     (Some (DriverError ''Catalog Error''),
      \<lparr>logged = [Connecting ''air_quality.db'', Found 1 ''sql''], opened = 1, closed = 0,
       submitted = [''CREATE TABLE t (x INT)'']\<rparr>)"
  by (simp add: transform_data_def transform_example_def fresh_def connect_to_database_def
      collect_query_paths_def os_walk_def Let_def logging_def read_query_def
      execute_query_def with_driver_def tree_env_def always_fails_def path_join_def
      endswith_def)

lemma failing_transform_z:
  "transform_data (with_driver (tree_env [File ''z.sql'']) always_fails) transform_example fresh =
     (Some (DriverError ''Catalog Error''),
      \<lparr>logged = [Connecting ''air_quality.db'', Found 1 ''sql''], opened = 1, closed = 0,
       submitted = [''CREATE TABLE t (x INT)'']\<rparr>)"
  by (simp add: transform_data_def transform_example_def fresh_def connect_to_database_def
      collect_query_paths_def os_walk_def Let_def logging_def read_query_def
      execute_query_def with_driver_def tree_env_def always_fails_def path_join_def
      endswith_def)

lemma collect_single_a:
  "fst (collect_query_paths (tree_env [File ''a.sql'']) ''sql'' w) = [''sql/a.sql'']"
  by (simp add: collect_query_paths_def os_walk_def Let_def tree_env_def path_join_def
      endswith_def)

lemma collect_single_z:
  "fst (collect_query_paths (tree_env [File ''z.sql'']) ''sql'' w) = [''sql/z.sql'']"
  by (simp add: collect_query_paths_def os_walk_def Let_def tree_env_def path_join_def
      endswith_def)

theorem fail_fast_unattributed_counterexample:
  "fst (collect_query_paths (with_driver (tree_env [File ''a.sql'']) always_fails) ''sql'' fresh) =
     [''sql/a.sql'']
   \<and> fst (collect_query_paths (with_driver (tree_env [File ''z.sql'']) always_fails) ''sql'' fresh) =
     [''sql/z.sql'']
   \<and> transform_data (with_driver (tree_env [File ''a.sql'']) always_fails) transform_example fresh =
       (Some (DriverError ''Catalog Error''),
        \<lparr>logged = [Connecting ''air_quality.db'', Found 1 ''sql''], opened = 1, closed = 0,
         submitted = [''CREATE TABLE t (x INT)'']\<rparr>)
   \<and> transform_data (with_driver (tree_env [File ''z.sql'']) always_fails) transform_example fresh =
       transform_data (with_driver (tree_env [File ''a.sql'']) always_fails) transform_example fresh"
  by (simp only: failing_transform_a failing_transform_z collect_single_a collect_single_z
      collect_with_driver)

subsection \<open>Runs in which every query succeeds\<close>

text \<open>
  A schema-setup or transformation run in which every file of the work list can be read
  and every query succeeds submits the text of every file, in the order of the work list,
  logs each file after its query, closes the session once and returns normally.
\<close>

theorem fail_free_run:
  assumes "connect_error ev db = None"
    and "fst (collect_query_paths ev dir w) = ps"
    and "length qs = length ps"
    and "\<forall>i<length ps. file_text ev (ps ! i) = Some (qs ! i)
                       \<and> driver ev (submitted w @ take i qs) (qs ! i) = None"
  shows "transform_data ev \<lparr>t_database_path = db, query_directory = dir\<rparr> w =
           (None,
            w\<lparr>logged := logged w @ [Connecting db, Found (length ps) dir]
                            @ map Executed ps @ [Closing],
              opened := opened w + 1,
              closed := closed w + 1,
              submitted := submitted w @ qs\<rparr>)
         \<and> setup_database ev db dir w =
           (None,
            w\<lparr>logged := logged w @ [Found (length ps) dir, Connecting db]
                            @ map Executed ps @ [Closing],
              opened := opened w + 1,
              closed := closed w + 1,
              submitted := submitted w @ qs\<rparr>)"
proof
  define w1 where "w1 = w\<lparr>logged := logged w @ [Connecting db], opened := opened w + 1\<rparr>"
  define w2 where "w2 = w\<lparr>logged := logged w @ [Connecting db, Found (length ps) dir],
                          opened := opened w + 1\<rparr>"
  have c: "connect_to_database ev db w = (None, w1)"
    using assms(1) by (simp add: connect_to_database_def logging_def Let_def w1_def)
  have q: "collect_query_paths ev dir w1 = (ps, w2)"
    using collect_at [OF assms(2), of w1] by (simp add: logging_def w1_def w2_def)
  have s: "submitted w2 = submitted w" by (simp add: w2_def)
  have "run_query_files ev ps w2 =
          (None, w2\<lparr>logged := logged w2 @ map Executed ps,
                     submitted := submitted w2 @ qs\<rparr>)"
    using assms(3,4) by (intro run_query_files_all_ok) (simp_all only: s)
  then show "transform_data ev \<lparr>t_database_path = db, query_directory = dir\<rparr> w =
           (None,
            w\<lparr>logged := logged w @ [Connecting db, Found (length ps) dir]
                            @ map Executed ps @ [Closing],
              opened := opened w + 1,
              closed := closed w + 1,
              submitted := submitted w @ qs\<rparr>)"
    by (simp add: transform_data_def c q)
       (simp add: w2_def close_database_connection_def logging_def)
next
  define w1 where "w1 = w\<lparr>logged := logged w @ [Found (length ps) dir]\<rparr>"
  define w2 where "w2 = w\<lparr>logged := logged w @ [Found (length ps) dir, Connecting db],
                          opened := opened w + 1\<rparr>"
  have q: "collect_query_paths ev dir w = (ps, w1)"
    using collect_at [OF assms(2), of w] by (simp add: logging_def w1_def)
  have c: "connect_to_database ev db w1 = (None, w2)"
    using assms(1) by (simp add: connect_to_database_def logging_def Let_def w1_def w2_def)
  have s: "submitted w2 = submitted w" by (simp add: w2_def)
  have "run_query_files ev ps w2 =
          (None, w2\<lparr>logged := logged w2 @ map Executed ps,
                     submitted := submitted w2 @ qs\<rparr>)"
    using assms(3,4) by (intro run_query_files_all_ok) (simp_all only: s)
  then show "setup_database ev db dir w =
           (None,
            w\<lparr>logged := logged w @ [Found (length ps) dir, Connecting db]
                            @ map Executed ps @ [Closing],
              opened := opened w + 1,
              closed := closed w + 1,
              submitted := submitted w @ qs\<rparr>)"
    by (simp add: setup_database_def c q)
       (simp add: w2_def close_database_connection_def logging_def)
qed

theorem fail_free_run_witness:
  "connect_error (tree_env tree1) ''air_quality.db'' = None
   \<and> fst (collect_query_paths (tree_env tree1) ''sql'' fresh) =
       [''sql/a.sql'', ''sql/b.sql'', ''sql/sub/c.sql'']
   \<and> transform_data (tree_env tree1) transform_example fresh =
       (None,
        \<lparr>logged = [Connecting ''air_quality.db'', Found 3 ''sql'', Executed ''sql/a.sql'',
                   Executed ''sql/b.sql'', Executed ''sql/sub/c.sql'', Closing],
         opened = 1, closed = 1,
         submitted = [''CREATE TABLE t (x INT)'', ''CREATE TABLE t (x INT)'',
                      ''CREATE TABLE t (x INT)'']\<rparr>)"
proof -
  let ?ev = "tree_env tree1"
  let ?q = "''CREATE TABLE t (x INT)''"
  let ?ps = "[''sql/a.sql'', ''sql/b.sql'', ''sql/sub/c.sql'']"
  have a1: "connect_error ?ev ''air_quality.db'' = None"
    by (simp add: tree_env_def)
  have a3: "length [?q, ?q, ?q] = length ?ps" by simp
  have a4: "\<forall>i<length ?ps. file_text ?ev (?ps ! i) = Some ([?q, ?q, ?q] ! i)
              \<and> driver ?ev (submitted fresh @ take i [?q, ?q, ?q]) ([?q, ?q, ?q] ! i) = None"
  proof (intro allI impI)
    fix i assume "i < length ?ps"
    then consider "i = 0" | "i = 1" | "i = 2" by (simp; arith)
    then show "file_text ?ev (?ps ! i) = Some ([?q, ?q, ?q] ! i)
              \<and> driver ?ev (submitted fresh @ take i [?q, ?q, ?q]) ([?q, ?q, ?q] ! i) = None"
      by cases (simp_all add: tree_env_def)
  qed
  from fail_free_run [OF a1 collect_tree1 a3 a4, THEN conjunct1]
  have "transform_data ?ev transform_example fresh =
       (None,
        fresh\<lparr>logged := logged fresh @ [Connecting ''air_quality.db'', Found (length ?ps) ''sql'']
                            @ map Executed ?ps @ [Closing],
              opened := opened fresh + 1,
              closed := closed fresh + 1,
              submitted := submitted fresh @ [?q, ?q, ?q]\<rparr>)"
    by (simp only: transform_example_def)
  then have "transform_data ?ev transform_example fresh =
       (None,
        \<lparr>logged = [Connecting ''air_quality.db'', Found 3 ''sql'', Executed ''sql/a.sql'',
                   Executed ''sql/b.sql'', Executed ''sql/sub/c.sql'', Closing],
         opened = 1, closed = 1, submitted = [?q, ?q, ?q]\<rparr>)"
    by (simp add: fresh_def)
  with a1 collect_tree1 show ?thesis
    by (intro conjI)
qed

subsection \<open>Empty work lists\<close>

text \<open>
  C6 (amended). A root directory that does not exist is not an error for
  \<^verbatim>\<open>collect_query_paths\<close>: it gives the empty list, as an existing directory with no
  matching file does. A run over the empty work list opens the session, executes no query,
  closes the session and returns without error.
\<close>

theorem empty_catalogue_noop:
  "(listdir ev dir = None \<longrightarrow> fst (collect_query_paths ev dir w) = [])
   \<and> (listdir ev dir = Some es \<and> count_sql es = 0 \<longrightarrow> fst (collect_query_paths ev dir w) = [])
   \<and> (fst (collect_query_paths ev dir w) = [] \<and> connect_error ev db = None \<longrightarrow>
        transform_data ev \<lparr>t_database_path = db, query_directory = dir\<rparr> w =
          (None, w\<lparr>logged := logged w @ [Connecting db, Found 0 dir, Closing],
                   opened := opened w + 1, closed := closed w + 1\<rparr>)
        \<and> setup_database ev db dir w =
          (None, w\<lparr>logged := logged w @ [Found 0 dir, Connecting db, Closing],
                   opened := opened w + 1, closed := closed w + 1\<rparr>))"
proof (intro conjI impI)
  assume "listdir ev dir = None"
  then show "fst (collect_query_paths ev dir w) = []"
    by (simp add: collect_query_paths_def os_walk_def Let_def)
next
  assume "listdir ev dir = Some es \<and> count_sql es = 0"
  then have "length (fst (collect_query_paths ev dir w)) = 0"
    using collect_query_paths_length [of ev dir es w] by simp
  then show "fst (collect_query_paths ev dir w) = []" by simp
next
  assume a: "fst (collect_query_paths ev dir w) = [] \<and> connect_error ev db = None"
  then have q: "\<And>w'. collect_query_paths ev dir w' = ([], logging (Found 0 dir) w')"
    using collect_at [of ev dir w "[]"] by simp
  from a show "transform_data ev \<lparr>t_database_path = db, query_directory = dir\<rparr> w =
          (None, w\<lparr>logged := logged w @ [Connecting db, Found 0 dir, Closing],
                   opened := opened w + 1, closed := closed w + 1\<rparr>)"
    by (simp add: transform_data_def connect_to_database_def q Let_def logging_def
        close_database_connection_def)
  from a show "setup_database ev db dir w =
          (None, w\<lparr>logged := logged w @ [Found 0 dir, Connecting db, Closing],
                   opened := opened w + 1, closed := closed w + 1\<rparr>)"
    by (simp add: setup_database_def connect_to_database_def q Let_def logging_def
        close_database_connection_def)
qed

theorem empty_catalogue_noop_witness:
  "listdir (tree_env [File ''notes.txt'']) ''sql'' = Some [File ''notes.txt'']
   \<and> count_sql [File ''notes.txt''] = 0
   \<and> connect_error (tree_env [File ''notes.txt'']) ''air_quality.db'' = None
   \<and> fst (collect_query_paths (tree_env [File ''notes.txt'']) ''sql'' fresh) = []
   \<and> transform_data (tree_env [File ''notes.txt'']) transform_example fresh =
       (None, \<lparr>logged = [Connecting ''air_quality.db'', Found 0 ''sql'', Closing],
               opened = 1, closed = 1, submitted = []\<rparr>)
   \<and> setup_database (tree_env [File ''notes.txt'']) ''air_quality.db'' ''sql'' fresh =
       (None, \<lparr>logged = [Found 0 ''sql'', Connecting ''air_quality.db'', Closing],
               opened = 1, closed = 1, submitted = []\<rparr>)"
proof -
  let ?ev = "tree_env [File ''notes.txt'']"
  have l: "listdir ?ev ''sql'' = Some [File ''notes.txt'']"
    by (simp add: tree_env_def)
  have n: "count_sql [File ''notes.txt''] = 0"
    by (simp add: endswith_def)
  have c: "connect_error ?ev ''air_quality.db'' = None"
    by (simp add: tree_env_def)
  note inst = empty_catalogue_noop
    [of ?ev "''sql''" fresh "[File ''notes.txt'']" "''air_quality.db''"]
  from inst l n have e: "fst (collect_query_paths ?ev ''sql'' fresh) = []"
    by blast
  with inst c have
    "transform_data ?ev \<lparr>t_database_path = ''air_quality.db'', query_directory = ''sql''\<rparr> fresh =
       (None, fresh\<lparr>logged := logged fresh @ [Connecting ''air_quality.db'', Found 0 ''sql'', Closing],
                opened := opened fresh + 1, closed := closed fresh + 1\<rparr>)"
    "setup_database ?ev ''air_quality.db'' ''sql'' fresh =
       (None, fresh\<lparr>logged := logged fresh @ [Found 0 ''sql'', Connecting ''air_quality.db'', Closing],
                opened := opened fresh + 1, closed := closed fresh + 1\<rparr>)"
    by blast+
  with l n c e show ?thesis
    by (simp add: transform_example_def fresh_def)
qed

theorem missing_directory_counterexample:
  "listdir (tree_env tree1) ''missing'' = None
   \<and> fst (collect_query_paths (tree_env tree1) ''missing'' fresh) = []
   \<and> transform_data (tree_env tree1)
        \<lparr>t_database_path = ''air_quality.db'', query_directory = ''missing''\<rparr> fresh =
       (None, \<lparr>logged = [Connecting ''air_quality.db'', Found 0 ''missing'', Closing],
               opened = 1, closed = 1, submitted = []\<rparr>)"
  by (simp add: tree_env_def collect_query_paths_def os_walk_def Let_def transform_data_def
      connect_to_database_def logging_def close_database_connection_def fresh_def)

subsection \<open>Extraction runs\<close>

lemma extract_data_connected:
  assumes "read_location_ids ev (locations_file_path args) = Inr ids"
    and "compile_data_file_paths (jinja2 (beyond ev)) data_file_path_template ids
           (start_date args) (end_date args) = Inr ps"
    and "read_query ev (extract_query_template_path args) = Inr qt"
    and "connect_error ev (database_path args) = None"
  shows "extract_data ev args w =
           (case extract_loop ev (source_base_path args) qt ps
                   (w\<lparr>logged := logged w @ [Connecting (database_path args)],
                      opened := opened w + 1\<rparr>) of
              (Some e, w2) \<Rightarrow> (Some e, w2)
            | (None, w2) \<Rightarrow> (None, close_database_connection w2))"
  using assms
  by (simp add: extract_data_def connect_to_database_def logging_def Let_def)

lemma read_example_locations: "read_location_ids (tree_env es) ''locations.json'' = Inr [''A'']"
  by (simp add: read_location_ids_def tree_env_def dict_keys_def)

lemma read_example_template:
  "read_query (tree_env es) ''extract.sql'' = Inr ''COPY {{data_file_path}}''"
  by (simp add: read_query_def tree_env_def)

text \<open>
  C2. Take an extraction run that has read its identifiers and its query template,
  compiled its work list and connected, and let \<open>k\<close> be an item of the list.

  \<^item> If every item's query renders, item \<open>k\<close>'s execution raises \<^verbatim>\<open>IOException\<close> and
    every other item's execution succeeds, then the exception is caught, a warning that
    carries the path of item \<open>k\<close> is logged in place of its success record, every item's
    query is submitted, in order, and the run returns normally with the session closed.
  \<^item> If the items before \<open>k\<close> rendered and succeeded or raised \<^verbatim>\<open>IOException\<close>, and item
    \<open>k\<close> renders and its execution raises an exception of another class, then the run
    ends with that exception and no query after item \<open>k\<close>'s is submitted.
  \<^item> If the items before \<open>k\<close> rendered and succeeded or raised \<^verbatim>\<open>IOException\<close>, and the
    rendering of item \<open>k\<close>'s query raises, whatever the exception, then the run ends with
    that exception and neither item \<open>k\<close>'s query nor any later one is submitted.

  The query template is any text: \<open>qs\<close> names what the engine makes of it for each item.
\<close>

theorem extract_data_skip_and_log:
  assumes "read_location_ids ev (locations_file_path args) = Inr ids"
    and "compile_data_file_paths (jinja2 (beyond ev)) data_file_path_template ids
           (start_date args) (end_date args) = Inr ps"
    and "read_query ev (extract_query_template_path args) = Inr qt"
    and "connect_error ev (database_path args) = None"
    and "k < length ps" and "length qs = length ps"
  shows "((\<forall>i<length ps.
             compile_data_file_query (jinja2 (beyond ev)) (source_base_path args) (ps ! i) qt =
               Inr (qs ! i)
             \<and> driver ev (submitted w @ take i qs) (qs ! i) =
                 (if i = k then Some (IOException msg) else None))
          \<longrightarrow> extract_data ev args w =
                (None,
                 w\<lparr>logged := logged w @ [Connecting (database_path args)]
                      @ concat (map (\<lambda>p. [Extracting p, Extracted p]) (take k ps))
                      @ [Extracting (ps ! k), CouldNotFind (ps ! k) msg]
                      @ concat (map (\<lambda>p. [Extracting p, Extracted p]) (drop (Suc k) ps))
                      @ [Closing],
                   opened := opened w + 1,
                   closed := closed w + 1,
                   submitted := submitted w @ qs\<rparr>)
              \<and> levelname (CouldNotFind (ps ! k) msg) = WARNING)
         \<and> ((\<forall>i<k. compile_data_file_query (jinja2 (beyond ev)) (source_base_path args)
                       (ps ! i) qt = Inr (qs ! i)
                     \<and> tolerated (driver ev (submitted w @ take i qs) (qs ! i)))
              \<and> compile_data_file_query (jinja2 (beyond ev)) (source_base_path args)
                   (ps ! k) qt = Inr (qs ! k)
              \<and> driver ev (submitted w @ take k qs) (qs ! k) = Some e
              \<and> \<not> is_IOException e
          \<longrightarrow> fst (extract_data ev args w) = Some e
              \<and> submitted (snd (extract_data ev args w)) = submitted w @ take (Suc k) qs
              \<and> closed (snd (extract_data ev args w)) = closed w)
         \<and> ((\<forall>i<k. compile_data_file_query (jinja2 (beyond ev)) (source_base_path args)
                       (ps ! i) qt = Inr (qs ! i)
                     \<and> tolerated (driver ev (submitted w @ take i qs) (qs ! i)))
              \<and> compile_data_file_query (jinja2 (beyond ev)) (source_base_path args)
                   (ps ! k) qt = Inl e
          \<longrightarrow> fst (extract_data ev args w) = Some e
              \<and> submitted (snd (extract_data ev args w)) = submitted w @ take k qs
              \<and> closed (snd (extract_data ev args w)) = closed w)"
proof (intro conjI impI)
  let ?w1 = "w\<lparr>logged := logged w @ [Connecting (database_path args)],
                opened := opened w + 1\<rparr>"
  let ?base = "source_base_path args"
  let ?query = "compile_data_file_query (jinja2 (beyond ev)) ?base"
  note run = extract_data_connected [OF assms(1-4), of w]
  have kq: "k < length qs" "k \<le> length qs" using assms(5,6) by simp_all
  {
    assume d: "\<forall>i<length ps.
             ?query (ps ! i) qt = Inr (qs ! i)
             \<and> driver ev (submitted w @ take i qs) (qs ! i) =
                 (if i = k then Some (IOException msg) else None)"
    have "\<forall>i<length ps.
             ?query (ps ! i) qt = Inr (qs ! i)
             \<and> driver ev (submitted ?w1 @ take i qs) (qs ! i) =
                 (if i = k then Some (IOException msg) else None)"
      using d by simp
    from extract_loop_skip [OF assms(6,5) this]
    show "extract_data ev args w =
                (None,
                 w\<lparr>logged := logged w @ [Connecting (database_path args)]
                      @ concat (map (\<lambda>p. [Extracting p, Extracted p]) (take k ps))
                      @ [Extracting (ps ! k), CouldNotFind (ps ! k) msg]
                      @ concat (map (\<lambda>p. [Extracting p, Extracted p]) (drop (Suc k) ps))
                      @ [Closing],
                   opened := opened w + 1,
                   closed := closed w + 1,
                   submitted := submitted w @ qs\<rparr>)"
      by (simp add: run close_database_connection_def logging_def)
    show "levelname (CouldNotFind (ps ! k) msg) = WARNING" by simp
  }
  {
    assume f: "(\<forall>i<k. ?query (ps ! i) qt = Inr (qs ! i)
                     \<and> tolerated (driver ev (submitted w @ take i qs) (qs ! i)))
              \<and> ?query (ps ! k) qt = Inr (qs ! k)
              \<and> driver ev (submitted w @ take k qs) (qs ! k) = Some e
              \<and> \<not> is_IOException e"
    have r: "\<forall>i\<le>k. ?query (ps ! i) qt = Inr (qs ! i)"
    proof (intro allI impI)
      fix i assume "i \<le> k"
      then have "i < k \<or> i = k" by arith
      with f show "?query (ps ! i) qt = Inr (qs ! i)" by blast
    qed
    have a: "\<forall>i<k. tolerated (driver ev (submitted ?w1 @ take i qs) (qs ! i))"
      using f by simp
    have b: "driver ev (submitted ?w1 @ take k qs) (qs ! k) = Some e"
      using f by simp
    have c: "\<not> is_IOException e" using f by simp
    note ab = extract_loop_abort [OF assms(5) kq(1) r a b c]
    obtain x w2 where rw: "extract_loop ev ?base qt ps ?w1 = (x, w2)"
      by (cases "extract_loop ev ?base qt ps ?w1")
    with ab have x: "x = Some e" "submitted w2 = submitted w @ take (Suc k) qs"
        "closed w2 = closed w"
      by simp_all
    have out: "extract_data ev args w = (Some e, w2)"
      unfolding run rw x(1) by simp
    show "fst (extract_data ev args w) = Some e"
      by (simp add: out)
    show "submitted (snd (extract_data ev args w)) = submitted w @ take (Suc k) qs"
      by (simp add: out x)
    show "closed (snd (extract_data ev args w)) = closed w"
      by (simp add: out x)
  }
  {
    assume f: "(\<forall>i<k. ?query (ps ! i) qt = Inr (qs ! i)
                     \<and> tolerated (driver ev (submitted w @ take i qs) (qs ! i)))
              \<and> ?query (ps ! k) qt = Inl e"
    have r: "\<forall>i<k. ?query (ps ! i) qt = Inr (qs ! i)"
      using f by blast
    have a: "\<forall>i<k. tolerated (driver ev (submitted ?w1 @ take i qs) (qs ! i))"
      using f by simp
    have b: "?query (ps ! k) qt = Inl e"
      using f by simp
    note ab = extract_loop_render_abort [OF assms(5) kq(2) r a b]
    obtain x w2 where rw: "extract_loop ev ?base qt ps ?w1 = (x, w2)"
      by (cases "extract_loop ev ?base qt ps ?w1")
    with ab have x: "x = Some e" "submitted w2 = submitted w @ take k qs"
        "closed w2 = closed w"
      by simp_all
    have out: "extract_data ev args w = (Some e, w2)"
      unfolding run rw x(1) by simp
    show "fst (extract_data ev args w) = Some e"
      by (simp add: out)
    show "submitted (snd (extract_data ev args w)) = submitted w @ take k qs"
      by (simp add: out x)
    show "closed (snd (extract_data ev args w)) = closed w"
      by (simp add: out x)
  }
qed

lemma read_location_ids_with_driver [simp]:
  "read_location_ids (with_driver ev d) p = read_location_ids ev p"
  by (simp add: read_location_ids_def with_driver_def split: option.splits)

lemma read_query_with_driver [simp]:
  "read_query (with_driver ev d) p = read_query ev p"
  by (simp add: read_query_def with_driver_def)

lemma beyond_with_driver [simp]: "beyond (with_driver ev d) = beyond ev"
  by (simp add: with_driver_def)

lemma jinja2_copy:
  "jinja2 other ''COPY {{data_file_path}}'' bindings =
     Inr (render [TemplateData ''COPY '', Name ''data_file_path''] bindings)"
proof -
  have "fragment ''COPY {{data_file_path}}'' =
          Some [TemplateData ''COPY '', Name ''data_file_path'']"
    by code_simp
  then show ?thesis by (simp add: jinja2_def)
qed

lemma example_query:
  "compile_data_file_query (jinja2 other) ''s3://bucket'' p ''COPY {{data_file_path}}'' =
     Inr (''COPY s3://bucket/'' @ p)"
  by (simp add: compile_data_file_query_def jinja2_copy render_def)

lemma jinja2_unknown_tag:
  "jinja2 other ''COPY {% data_file_path %}'' bindings =
     other ''COPY {% data_file_path %}'' bindings"
proof -
  have "fragment ''COPY {% data_file_path %}'' = None"
    by code_simp
  then show ?thesis by (simp add: jinja2_def)
qed

theorem extract_data_skip_and_log_witness:
  "read_location_ids (tree_env []) ''locations.json'' = Inr [''A'']
   \<and> compile_data_file_paths (jinja2 (beyond (tree_env []))) data_file_path_template [''A'']
         ''2024-01'' ''2024-03'' =
       Inr [''locationid=A/year=2024/month=01/*'', ''locationid=A/year=2024/month=02/*'',
            ''locationid=A/year=2024/month=03/*'']
   \<and> extract_data (with_driver (tree_env []) second_missing)
         (extract_example ''2024-01'' ''2024-03'') fresh =
       (None,
        \<lparr>logged =
           [Connecting ''air_quality.db'',
            Extracting ''locationid=A/year=2024/month=01/*'',
            Extracted ''locationid=A/year=2024/month=01/*'',
            Extracting ''locationid=A/year=2024/month=02/*'',
            CouldNotFind ''locationid=A/year=2024/month=02/*'' ''No files found'',
            Extracting ''locationid=A/year=2024/month=03/*'',
            Extracted ''locationid=A/year=2024/month=03/*'',
            Closing],
         opened = 1, closed = 1,
         submitted =
           [''COPY s3://bucket/locationid=A/year=2024/month=01/*'',
            ''COPY s3://bucket/locationid=A/year=2024/month=02/*'',
            ''COPY s3://bucket/locationid=A/year=2024/month=03/*'']\<rparr>)
   \<and> fst (extract_data (with_driver (tree_env []) second_fails)
              (extract_example ''2024-01'' ''2024-03'') fresh) =
       Some (DriverError ''Catalog Error'')
   \<and> submitted (snd (extract_data (with_driver (tree_env []) second_fails)
              (extract_example ''2024-01'' ''2024-03'') fresh)) =
       [''COPY s3://bucket/locationid=A/year=2024/month=01/*'',
        ''COPY s3://bucket/locationid=A/year=2024/month=02/*'']
   \<and> closed (snd (extract_data (with_driver (tree_env []) second_fails)
              (extract_example ''2024-01'' ''2024-03'') fresh)) = 0
   \<and> read_query (with_template (tree_env []) ''COPY {% data_file_path %}'') ''extract.sql'' =
       Inr ''COPY {% data_file_path %}''
   \<and> fst (extract_data (with_template (tree_env []) ''COPY {% data_file_path %}'')
              (extract_example ''2024-01'' ''2024-03'') fresh) =
       Some TemplateError
   \<and> submitted (snd (extract_data (with_template (tree_env []) ''COPY {% data_file_path %}'')
              (extract_example ''2024-01'' ''2024-03'') fresh)) = []
   \<and> closed (snd (extract_data (with_template (tree_env []) ''COPY {% data_file_path %}'')
              (extract_example ''2024-01'' ''2024-03'') fresh)) = 0"
proof -
  let ?args = "extract_example ''2024-01'' ''2024-03''"
  let ?ps = "[''locationid=A/year=2024/month=01/*'', ''locationid=A/year=2024/month=02/*'',
              ''locationid=A/year=2024/month=03/*'']"
  let ?qs = "[''COPY s3://bucket/locationid=A/year=2024/month=01/*'',
              ''COPY s3://bucket/locationid=A/year=2024/month=02/*'',
              ''COPY s3://bucket/locationid=A/year=2024/month=03/*'']"
  let ?ok = "with_driver (tree_env []) second_missing"
  let ?bad = "with_driver (tree_env []) second_fails"
  let ?tag = "with_template (tree_env []) ''COPY {% data_file_path %}''"
  have f: "locations_file_path ?args = ''locations.json''" "start_date ?args = ''2024-01''"
    "end_date ?args = ''2024-03''" "extract_query_template_path ?args = ''extract.sql''"
    "database_path ?args = ''air_quality.db''" "source_base_path ?args = ''s3://bucket''"
    by (simp_all add: extract_example_def)
  have ids: "\<And>d. read_location_ids (with_driver (tree_env []) d) (locations_file_path ?args)
               = Inr [''A'']"
    by (simp add: f read_example_locations)
  have ps: "\<And>ev :: env. compile_data_file_paths (jinja2 (beyond ev)) data_file_path_template [''A'']
              (start_date ?args) (end_date ?args) = Inr ?ps"
    by (simp only: f compile_three_partitions)
  have qt: "\<And>d. read_query (with_driver (tree_env []) d) (extract_query_template_path ?args)
              = Inr ''COPY {{data_file_path}}''"
    by (simp add: f read_example_template)
  have c: "\<And>d. connect_error (with_driver (tree_env []) d) (database_path ?args) = None"
    by (simp add: with_driver_def tree_env_def)
  have k: "1 < length ?ps" by simp
  have len: "length ?qs = length ?ps" by simp
  have q: "\<And>(ev :: env) i. i < length ?ps \<Longrightarrow>
             compile_data_file_query (jinja2 (beyond ev)) (source_base_path ?args) (?ps ! i)
               ''COPY {{data_file_path}}'' = Inr (?qs ! i)"
  proof -
    fix ev :: env and i assume "i < length ?ps"
    then consider "i = 0" | "i = 1" | "i = 2" by (auto simp: less_Suc_eq numeral_3_eq_3)
    then show "compile_data_file_query (jinja2 (beyond ev)) (source_base_path ?args) (?ps ! i)
               ''COPY {{data_file_path}}'' = Inr (?qs ! i)"
      by cases (simp_all add: f example_query)
  qed
  have skip: "\<forall>i<length ?ps.
      compile_data_file_query (jinja2 (beyond ?ok)) (source_base_path ?args) (?ps ! i)
        ''COPY {{data_file_path}}'' = Inr (?qs ! i)
      \<and> driver ?ok (submitted fresh @ take i ?qs) (?qs ! i) =
          (if i = 1 then Some (IOException ''No files found'') else None)"
  proof (intro allI impI conjI)
    fix i assume i: "i < length ?ps"
    then show "compile_data_file_query (jinja2 (beyond ?ok)) (source_base_path ?args) (?ps ! i)
        ''COPY {{data_file_path}}'' = Inr (?qs ! i)"
      by (rule q)
    from i have "length (submitted fresh @ take i ?qs) = i"
      by (simp add: fresh_def)
    then show "driver ?ok (submitted fresh @ take i ?qs) (?qs ! i) =
          (if i = 1 then Some (IOException ''No files found'') else None)"
      by (simp add: with_driver_def second_missing_def)
  qed
  have fatal: "(\<forall>i<1.
        compile_data_file_query (jinja2 (beyond ?bad)) (source_base_path ?args) (?ps ! i)
          ''COPY {{data_file_path}}'' = Inr (?qs ! i)
        \<and> tolerated (driver ?bad (submitted fresh @ take i ?qs) (?qs ! i)))
    \<and> compile_data_file_query (jinja2 (beyond ?bad)) (source_base_path ?args) (?ps ! 1)
          ''COPY {{data_file_path}}'' = Inr (?qs ! 1)
    \<and> driver ?bad (submitted fresh @ take 1 ?qs) (?qs ! 1) = Some (DriverError ''Catalog Error'')
    \<and> \<not> is_IOException (DriverError ''Catalog Error'')"
    using q [of 0 ?bad] q [of 1 ?bad]
    by (simp add: with_driver_def second_fails_def fresh_def)
  have ids3: "read_location_ids ?tag (locations_file_path ?args) = Inr [''A'']"
    by (simp add: f read_location_ids_def with_template_def tree_env_def dict_keys_def)
  have qt3: "read_query ?tag (extract_query_template_path ?args) =
               Inr ''COPY {% data_file_path %}''"
    by (simp add: f read_query_def with_template_def)
  have c3: "connect_error ?tag (database_path ?args) = None"
    by (simp add: with_template_def tree_env_def)
  have k3: "0 < length ?ps" by simp
  have render3: "(\<forall>i<0.
        compile_data_file_query (jinja2 (beyond ?tag)) (source_base_path ?args) (?ps ! i)
          ''COPY {% data_file_path %}'' = Inr (?qs ! i)
        \<and> tolerated (driver ?tag (submitted fresh @ take i ?qs) (?qs ! i)))
    \<and> compile_data_file_query (jinja2 (beyond ?tag)) (source_base_path ?args) (?ps ! 0)
          ''COPY {% data_file_path %}'' = Inl TemplateError"
    by (simp add: compile_data_file_query_def jinja2_unknown_tag with_template_def tree_env_def)
  note ok = extract_data_skip_and_log [where w = fresh and msg = "''No files found''",
      OF ids [of second_missing] ps [of ?ok] qt [of second_missing] c [of second_missing]
        k len,
      THEN conjunct1, THEN mp, OF skip, THEN conjunct1]
  note bad = extract_data_skip_and_log [where w = fresh and e = "DriverError ''Catalog Error''",
      OF ids [of second_fails] ps [of ?bad] qt [of second_fails] c [of second_fails] k len,
      THEN conjunct2, THEN conjunct1, THEN mp, OF fatal]
  note tag = extract_data_skip_and_log [where w = fresh and e = TemplateError,
      OF ids3 ps [of ?tag] qt3 c3 k3 len,
      THEN conjunct2, THEN conjunct2, THEN mp, OF render3]
  have 1: "extract_data ?ok ?args fresh =
       (None,
        \<lparr>logged =
           [Connecting ''air_quality.db'',
            Extracting ''locationid=A/year=2024/month=01/*'',
            Extracted ''locationid=A/year=2024/month=01/*'',
            Extracting ''locationid=A/year=2024/month=02/*'',
            CouldNotFind ''locationid=A/year=2024/month=02/*'' ''No files found'',
            Extracting ''locationid=A/year=2024/month=03/*'',
            Extracted ''locationid=A/year=2024/month=03/*'',
            Closing],
         opened = 1, closed = 1,
         submitted = ?qs\<rparr>)"
    unfolding ok f by (simp add: fresh_def)
  have 2: "fst (extract_data ?bad ?args fresh) = Some (DriverError ''Catalog Error'')"
    using bad by (rule conjunct1)
  have 3: "submitted (snd (extract_data ?bad ?args fresh)) =
       [''COPY s3://bucket/locationid=A/year=2024/month=01/*'',
        ''COPY s3://bucket/locationid=A/year=2024/month=02/*'']"
    using bad [THEN conjunct2, THEN conjunct1] by (simp add: fresh_def)
  have 4: "closed (snd (extract_data ?bad ?args fresh)) = 0"
    using bad [THEN conjunct2, THEN conjunct2] by (simp add: fresh_def)
  have 5: "read_query ?tag ''extract.sql'' = Inr ''COPY {% data_file_path %}''"
    using qt3 by (simp only: f)
  have 6: "fst (extract_data ?tag ?args fresh) = Some TemplateError"
    using tag by (rule conjunct1)
  have 7: "submitted (snd (extract_data ?tag ?args fresh)) = []"
    using tag [THEN conjunct2, THEN conjunct1] by (simp add: fresh_def)
  have 8: "closed (snd (extract_data ?tag ?args fresh)) = 0"
    using tag [THEN conjunct2, THEN conjunct2] by (simp add: fresh_def)
  have 0: "compile_data_file_paths (jinja2 (beyond (tree_env []))) data_file_path_template
             [''A''] ''2024-01'' ''2024-03'' = Inr ?ps"
    by (rule compile_three_partitions)
  from read_example_locations [of "[]"] 0 1 2 3 4 5 6 7 8 show ?thesis
    by (intro conjI)
qed

lemma datetime_less_not_le: "datetime_less e s \<Longrightarrow> \<not> datetime_le s e"
  unfolding datetime_less_def datetime_le_def by auto

text \<open>
  C7. When the start month is later than the end month, both being months that
  \<^verbatim>\<open>strptime\<close> accepts, \<^verbatim>\<open>compile_data_file_paths\<close> returns the empty list for any
  list of identifiers and raises nothing; the extraction run over this empty work list
  opens and closes the session and submits no query.
\<close>

theorem start_after_end_no_partitions:
  assumes "strptime_ym start = Inr s" and "strptime_ym end = Inr e" and "datetime_less e s"
  shows "compile_data_file_paths jinja tmpl ids start end = Inr []
         \<and> (start_date args = start \<and> end_date args = end
              \<and> read_location_ids ev (locations_file_path args) = Inr ids
              \<and> read_query ev (extract_query_template_path args) = Inr qt
              \<and> connect_error ev (database_path args) = None
             \<longrightarrow> extract_data ev args w =
                   (None, w\<lparr>logged := logged w @ [Connecting (database_path args), Closing],
                            opened := opened w + 1, closed := closed w + 1\<rparr>))"
proof -
  have n: "\<not> datetime_le s e"
    using assms(3) by (rule datetime_less_not_le)
  have c: "\<And>jinja tmpl. compile_data_file_paths jinja tmpl ids start end = Inr []"
    using assms(1,2) n by (simp add: compile_data_file_paths_def location_loop_empty)
  show ?thesis
  proof (intro conjI impI)
    show "compile_data_file_paths jinja tmpl ids start end = Inr []" by (rule c)
  next
    assume a: "start_date args = start \<and> end_date args = end
              \<and> read_location_ids ev (locations_file_path args) = Inr ids
              \<and> read_query ev (extract_query_template_path args) = Inr qt
              \<and> connect_error ev (database_path args) = None"
    then have "compile_data_file_paths (jinja2 (beyond ev)) data_file_path_template ids
                 (start_date args) (end_date args) = Inr []"
      using c by simp
    from extract_data_connected [where w = w and qt = qt, OF _ this] a
    show "extract_data ev args w =
            (None, w\<lparr>logged := logged w @ [Connecting (database_path args), Closing],
                     opened := opened w + 1, closed := closed w + 1\<rparr>)"
      by (simp add: close_database_connection_def logging_def)
  qed
qed

theorem start_after_end_no_partitions_witness:
  "strptime_ym ''2024-03'' = Inr \<lparr>year = 2024, month = 3\<rparr>
   \<and> strptime_ym ''2024-02'' = Inr \<lparr>year = 2024, month = 2\<rparr>
   \<and> datetime_less \<lparr>year = 2024, month = 2\<rparr> \<lparr>year = 2024, month = 3\<rparr>
   \<and> compile_data_file_paths (jinja2 (beyond (tree_env []))) data_file_path_template [''A'']
         ''2024-03'' ''2024-02'' = Inr []
   \<and> extract_data (tree_env []) (extract_example ''2024-03'' ''2024-02'') fresh =
       (None, \<lparr>logged = [Connecting ''air_quality.db'', Closing], opened = 1, closed = 1,
               submitted = []\<rparr>)"
proof -
  have l: "datetime_less \<lparr>year = 2024, month = 2\<rparr> \<lparr>year = 2024, month = 3\<rparr>"
    by (simp add: datetime_less_def)
  note inst = start_after_end_no_partitions
    [where jinja = "jinja2 (beyond (tree_env []))" and tmpl = data_file_path_template
       and ids = "[''A'']" and args = "extract_example ''2024-03'' ''2024-02''"
       and ev = "tree_env []" and qt = "''COPY {{data_file_path}}''" and w = fresh,
     OF strptime_ym_2024_03 strptime_ym_2024_02 l]
  have a: "start_date (extract_example ''2024-03'' ''2024-02'') = ''2024-03''"
    "end_date (extract_example ''2024-03'' ''2024-02'') = ''2024-02''"
    "locations_file_path (extract_example ''2024-03'' ''2024-02'') = ''locations.json''"
    "extract_query_template_path (extract_example ''2024-03'' ''2024-02'') = ''extract.sql''"
    "database_path (extract_example ''2024-03'' ''2024-02'') = ''air_quality.db''"
    by (simp_all add: extract_example_def)
  have c: "connect_error (tree_env []) ''air_quality.db'' = None"
    by (simp add: tree_env_def)
  from inst have 1: "compile_data_file_paths (jinja2 (beyond (tree_env [])))
                       data_file_path_template [''A''] ''2024-03'' ''2024-02'' = Inr []"
    by (rule conjunct1)
  from inst [THEN conjunct2] have
    "extract_data (tree_env []) (extract_example ''2024-03'' ''2024-02'') fresh =
       (None, fresh\<lparr>logged := logged fresh @ [Connecting ''air_quality.db'', Closing],
                opened := opened fresh + 1, closed := closed fresh + 1\<rparr>)"
    by (simp only: a read_example_locations read_example_template c simp_thms)
  then have 2: "extract_data (tree_env []) (extract_example ''2024-03'' ''2024-02'') fresh =
       (None, \<lparr>logged = [Connecting ''air_quality.db'', Closing], opened = 1, closed = 1,
               submitted = []\<rparr>)"
    by (simp add: fresh_def)
  from strptime_ym_2024_03 strptime_ym_2024_02 l 1 2 show ?thesis
    by (intro conjI)
qed

subsection \<open>Closing the session\<close>

lemma session_account_transform: "session_account w (transform_data ev args w)"
proof (cases "connect_error ev (t_database_path args)")
  case (Some e)
  then show ?thesis
    by (simp add: session_account_def transform_data_def connect_to_database_def Let_def
        logging_def)
next
  case None
  let ?w1 = "w\<lparr>logged := logged w @ [Connecting (t_database_path args)],
                opened := opened w + 1\<rparr>"
  obtain ps w2 where q: "collect_query_paths ev (query_directory args) ?w1 = (ps, w2)"
    by (cases "collect_query_paths ev (query_directory args) ?w1")
  then have w2: "opened w2 = opened w + 1" "closed w2 = closed w"
    by (auto simp: collect_query_paths_def Let_def logging_def)
  obtain r w3 where r: "run_query_files ev ps w2 = (r, w3)"
    by (cases "run_query_files ev ps w2")
  from run_query_files_frame [OF r] w2 have w3: "opened w3 = opened w + 1" "closed w3 = closed w"
    by simp_all
  have "transform_data ev args w =
          (case r of Some e \<Rightarrow> (Some e, w3) | None \<Rightarrow> (None, close_database_connection w3))"
    using None q r
    by (simp add: transform_data_def connect_to_database_def Let_def logging_def
        split: option.splits)
  with w3 show ?thesis
    by (cases r)
       (simp_all add: session_account_def close_database_connection_def logging_def)
qed

lemma session_account_setup: "session_account w (setup_database ev db dir w)"
proof -
  obtain ps w1 where q: "collect_query_paths ev dir w = (ps, w1)"
    by (cases "collect_query_paths ev dir w")
  then have w1: "opened w1 = opened w" "closed w1 = closed w" "submitted w1 = submitted w"
    by (auto simp: collect_query_paths_def Let_def logging_def)
  show ?thesis
  proof (cases "connect_error ev db")
    case (Some e)
    with q w1 show ?thesis
      by (simp add: session_account_def setup_database_def connect_to_database_def Let_def
          logging_def)
  next
    case None
    let ?w2 = "w1\<lparr>logged := logged w1 @ [Connecting db], opened := opened w1 + 1\<rparr>"
    obtain r w3 where r: "run_query_files ev ps ?w2 = (r, w3)"
      by (cases "run_query_files ev ps ?w2")
    from run_query_files_frame [OF r] w1
    have w3: "opened w3 = opened w + 1" "closed w3 = closed w"
      by simp_all
    have "setup_database ev db dir w =
            (case r of Some e \<Rightarrow> (Some e, w3) | None \<Rightarrow> (None, close_database_connection w3))"
      using None q r
      by (simp add: setup_database_def connect_to_database_def Let_def logging_def
          split: option.splits)
    with w3 show ?thesis
      by (cases r)
         (simp_all add: session_account_def close_database_connection_def logging_def)
  qed
qed

lemma session_account_extract: "session_account w (extract_data ev args w)"
proof (cases "read_location_ids ev (locations_file_path args)")
  case (Inl e)
  then show ?thesis by (simp add: session_account_def extract_data_def)
next
  case ids: (Inr ids)
  show ?thesis
  proof (cases "compile_data_file_paths (jinja2 (beyond ev)) data_file_path_template ids (start_date args)
                  (end_date args)")
    case (Inl e)
    with ids show ?thesis by (simp add: session_account_def extract_data_def)
  next
    case ps: (Inr ps)
    show ?thesis
    proof (cases "read_query ev (extract_query_template_path args)")
      case (Inl e)
      with ids ps show ?thesis by (simp add: session_account_def extract_data_def)
    next
      case qt: (Inr qt)
      show ?thesis
      proof (cases "connect_error ev (database_path args)")
        case (Some e)
        with ids ps qt show ?thesis
          by (simp add: session_account_def extract_data_def connect_to_database_def
              Let_def logging_def)
      next
        case None
        let ?w1 = "w\<lparr>logged := logged w @ [Connecting (database_path args)],
                      opened := opened w + 1\<rparr>"
        obtain r w2 where r: "extract_loop ev (source_base_path args) qt ps ?w1 = (r, w2)"
          by (cases "extract_loop ev (source_base_path args) qt ps ?w1")
        from extract_loop_frame [OF r]
        have w2: "opened w2 = opened w + 1" "closed w2 = closed w"
          by simp_all
        have "extract_data ev args w =
                (case r of Some e \<Rightarrow> (Some e, w2)
                 | None \<Rightarrow> (None, close_database_connection w2))"
          using extract_data_connected [OF ids ps qt None, of w] r
          by (simp split: option.splits)
        with w2 show ?thesis
          by (cases r)
             (simp_all add: session_account_def close_database_connection_def logging_def)
      qed
    qed
  qed
qed

text \<open>
  C5 (amended). In every schema-setup, extraction and transformation run, the session is
  closed exactly once when the run returns normally, whatever was skipped on the way.
  When an exception leaves the run, \<^verbatim>\<open>close\<close> is not called: no run has a handler or a
  scope around its queries, so after a fatal query failure the opened session is left
  unclosed.
\<close>

theorem session_closed_on_return_only:
  "session_account w (transform_data ev targs w)
   \<and> session_account w (setup_database ev db dir w)
   \<and> session_account w (extract_data ev eargs w)"
  by (intro conjI session_account_transform session_account_setup session_account_extract)

theorem session_closed_on_return_only_witness:
  "transform_data (tree_env [File ''notes.txt'']) transform_example fresh =
       (None, \<lparr>logged = [Connecting ''air_quality.db'', Found 0 ''sql'', Closing],
               opened = 1, closed = 1, submitted = []\<rparr>)
   \<and> session_account fresh
        (None, \<lparr>logged = [Connecting ''air_quality.db'', Found 0 ''sql'', Closing],
               opened = 1, closed = 1, submitted = []\<rparr>)
   \<and> transform_data (with_driver (tree_env [File ''a.sql'']) always_fails) transform_example fresh =
       (Some (DriverError ''Catalog Error''),
        \<lparr>logged = [Connecting ''air_quality.db'', Found 1 ''sql''], opened = 1, closed = 0,
         submitted = [''CREATE TABLE t (x INT)'']\<rparr>)
   \<and> session_account fresh
       (Some (DriverError ''Catalog Error''),
        \<lparr>logged = [Connecting ''air_quality.db'', Found 1 ''sql''], opened = 1, closed = 0,
         submitted = [''CREATE TABLE t (x INT)'']\<rparr>)"
proof -
  have 1: "transform_data (tree_env [File ''notes.txt'']) transform_example fresh =
       (None, \<lparr>logged = [Connecting ''air_quality.db'', Found 0 ''sql'', Closing],
               opened = 1, closed = 1, submitted = []\<rparr>)"
    by (simp add: tree_env_def collect_query_paths_def os_walk_def Let_def transform_data_def
        connect_to_database_def logging_def close_database_connection_def fresh_def
        transform_example_def endswith_def)
  from session_closed_on_return_only
    [of fresh "tree_env [File ''notes.txt'']" transform_example]
  have 2: "session_account fresh
        (None, \<lparr>logged = [Connecting ''air_quality.db'', Found 0 ''sql'', Closing],
               opened = 1, closed = 1, submitted = []\<rparr>)"
    by (simp only: 1)
  from session_closed_on_return_only
    [of fresh "with_driver (tree_env [File ''a.sql'']) always_fails" transform_example]
  have 3: "session_account fresh
       (Some (DriverError ''Catalog Error''),
        \<lparr>logged = [Connecting ''air_quality.db'', Found 1 ''sql''], opened = 1, closed = 0,
         submitted = [''CREATE TABLE t (x INT)'']\<rparr>)"
    by (simp only: failing_transform_a)
  from 1 2 failing_transform_a 3 show ?thesis
    by (intro conjI)
qed

theorem session_left_open_counterexample:
  "fst (transform_data (with_driver (tree_env [File ''a.sql'']) always_fails)
          transform_example fresh) = Some (DriverError ''Catalog Error'')
   \<and> opened (snd (transform_data (with_driver (tree_env [File ''a.sql'']) always_fails)
          transform_example fresh)) = 1
   \<and> closed (snd (transform_data (with_driver (tree_env [File ''a.sql'']) always_fails)
          transform_example fresh)) = 0"
  by (simp add: failing_transform_a)

section \<open>Destroying the database\<close>

lemma destroy_database_nothing:
  "node_at fs path = None \<Longrightarrow> destroy_database fs path = Inr fs"
  by (simp add: destroy_database_def os_path_exists_def)

lemma destroy_database_unseen:
  "stat_fails fs path \<Longrightarrow> destroy_database fs path = Inr fs"
  by (simp add: destroy_database_def os_path_exists_def)

lemma destroy_database_seen:
  "node_at fs path = Some n \<Longrightarrow> \<not> stat_fails fs path \<Longrightarrow>
   destroy_database fs path =
     (if n = Directory \<or> unlink_denied fs path then Inl OSError
      else Inr (fs\<lparr>node_at := (node_at fs)(path := None)\<rparr>))"
  by (cases n) (simp_all add: destroy_database_def os_path_exists_def os_remove_def)

text \<open>
  C10 (amended). \<^verbatim>\<open>destroy_database\<close> returns without an error and leaves nothing at
  the path, so that \<^verbatim>\<open>os.path.exists\<close> is false of it and a second call returns
  without an error and changes nothing, exactly when the path names nothing or names
  something other than a directory that the process can stat and unlink.
\<close>

theorem destroy_database_idempotent:
  "(case destroy_database fs path of
      Inl e \<Rightarrow> False
    | Inr fs' \<Rightarrow> node_at fs' path = None \<and> \<not> os_path_exists fs' path
                 \<and> destroy_database fs' path = Inr fs')
   \<longleftrightarrow> (node_at fs path = None
        \<or> (node_at fs path \<noteq> Some Directory \<and> \<not> stat_fails fs path
            \<and> \<not> unlink_denied fs path))"
proof (cases "node_at fs path")
  case None
  then show ?thesis
    by (simp add: destroy_database_nothing os_path_exists_def)
next
  case (Some n)
  show ?thesis
  proof (cases "stat_fails fs path")
    case True
    with Some show ?thesis
      by (simp add: destroy_database_unseen)
  next
    case False
    show ?thesis
    proof (cases "n = Directory \<or> unlink_denied fs path")
      case True
      with Some False show ?thesis
        by (auto simp: destroy_database_seen)
    next
      case ok: False
      let ?fs = "fs\<lparr>node_at := (node_at fs)(path := None)\<rparr>"
      have "destroy_database fs path = Inr ?fs"
        using Some False ok by (simp add: destroy_database_seen)
      moreover have "node_at ?fs path = None" by simp
      moreover have "\<not> os_path_exists ?fs path" by (simp add: os_path_exists_def)
      moreover have "destroy_database ?fs path = Inr ?fs"
        by (rule destroy_database_nothing) simp
      ultimately show ?thesis
        using Some False ok by simp
    qed
  qed
qed

theorem destroy_database_idempotent_witness:
  "node_at database_file ''air_quality.db'' = Some RegularFile
   \<and> \<not> stat_fails database_file ''air_quality.db''
   \<and> \<not> unlink_denied database_file ''air_quality.db''
   \<and> destroy_database database_file ''air_quality.db'' = Inr no_file
   \<and> destroy_database no_file ''air_quality.db'' = Inr no_file
   \<and> (case destroy_database database_file ''air_quality.db'' of
         Inl e \<Rightarrow> False
       | Inr fs' \<Rightarrow> node_at fs' ''air_quality.db'' = None
                    \<and> \<not> os_path_exists fs' ''air_quality.db''
                    \<and> destroy_database fs' ''air_quality.db'' = Inr fs')"
proof -
  have a: "node_at database_file ''air_quality.db'' = Some RegularFile"
    "\<not> stat_fails database_file ''air_quality.db''"
    "\<not> unlink_denied database_file ''air_quality.db''"
    by (simp_all add: database_file_def)
  have e: "database_file\<lparr>node_at := (node_at database_file)(''air_quality.db'' := None)\<rparr>
             = no_file"
    by (auto simp: database_file_def no_file_def)
  have 1: "destroy_database database_file ''air_quality.db'' = Inr no_file"
    using a by (simp add: destroy_database_seen e)
  have 2: "destroy_database no_file ''air_quality.db'' = Inr no_file"
    by (rule destroy_database_nothing) (simp add: no_file_def)
  have 3: "case destroy_database database_file ''air_quality.db'' of
         Inl e \<Rightarrow> False
       | Inr fs' \<Rightarrow> node_at fs' ''air_quality.db'' = None
                    \<and> \<not> os_path_exists fs' ''air_quality.db''
                    \<and> destroy_database fs' ''air_quality.db'' = Inr fs'"
    using destroy_database_idempotent [where fs = database_file and path = "''air_quality.db''"] a
    by simp
  from a 1 2 3 show ?thesis by (intro conjI)
qed

theorem destroy_database_refused_counterexample:
  "destroy_database (database_file\<lparr>node_at := (\<lambda>p. Some Directory)\<rparr>) ''air_quality.db'' =
     Inl OSError
   \<and> destroy_database (database_file\<lparr>unlink_denied := (\<lambda>p. True)\<rparr>) ''air_quality.db'' =
       Inl OSError
   \<and> destroy_database (database_file\<lparr>stat_fails := (\<lambda>p. True)\<rparr>) ''air_quality.db'' =
       Inr (database_file\<lparr>stat_fails := (\<lambda>p. True)\<rparr>)
   \<and> node_at (database_file\<lparr>stat_fails := (\<lambda>p. True)\<rparr>) ''air_quality.db'' =
       Some RegularFile"
  by (simp add: destroy_database_def os_path_exists_def os_remove_def database_file_def)
end
